theory Spec2Isabelle
  imports Main
begin

section \<open>Strings\<close>

text \<open>
  Go strings are byte sequences; they are modelled as \<open>string\<close> (a list of 8-bit
  characters).  The helpers below are the functions of package \<open>strings\<close> that the
  supervisor calls.
\<close>

text \<open>\<open>strings.HasPrefix(s, p)\<close>.\<close>

definition hasPrefix :: "string \<Rightarrow> string \<Rightarrow> bool" where
  "hasPrefix s p = (take (length p) s = p)"

text \<open>\<open>strings.HasSuffix(s, p)\<close>.\<close>

definition hasSuffix :: "string \<Rightarrow> string \<Rightarrow> bool" where
  "hasSuffix s p = (length p \<le> length s \<and> drop (length s - length p) s = p)"

text \<open>\<open>strings.Contains(s, sub)\<close>: \<open>sub\<close> occurs at some offset of \<open>s\<close>.\<close>

fun containsStr :: "string \<Rightarrow> string \<Rightarrow> bool" where
  "containsStr [] sub = (sub = [])"
| "containsStr (c # cs) sub = (hasPrefix (c # cs) sub \<or> containsStr cs sub)"

text \<open>
  \<open>strings.Split(s, sep)\<close> for a one-byte separator: one more part than there are
  separators, so the empty string splits into one empty part.
\<close>

fun splitOn :: "char \<Rightarrow> string \<Rightarrow> string list" where
  "splitOn sep [] = [[]]"
| "splitOn sep (c # cs) =
     (if c = sep then [] # splitOn sep cs
      else (case splitOn sep cs of
              [] \<Rightarrow> [[c]]
            | p # ps \<Rightarrow> (c # p) # ps))"

section \<open>Mail addresses (internal/mail/types.go)\<close>

text \<open>
  \<open>addressToIdentity\<close>: mayor and deacon keep a trailing slash, one trailing slash of
  any other address is trimmed, and \<open>rig/crew/name\<close>, \<open>rig/polecats/name\<close> become
  \<open>rig/name\<close>.
\<close>

definition addressToIdentity :: "string \<Rightarrow> string" where
  "addressToIdentity address =
     (if address = ''mayor'' \<or> address = ''mayor/'' then ''mayor/''
      else if address = ''deacon'' \<or> address = ''deacon/'' then ''deacon/''
      else
        let address' = (if length address > 0 \<and> address ! (length address - 1) = CHR ''/''
                        then take (length address - 1) address else address);
            parts = splitOn (CHR ''/'') address'
        in if length parts = 3 \<and> (parts ! 1 = ''crew'' \<or> parts ! 1 = ''polecats'')
           then parts ! 0 @ ''/'' @ parts ! 2
           else address')"

text \<open>\<open>identityToAddress\<close>: the same normalisation, without the trimming.\<close>

definition identityToAddress :: "string \<Rightarrow> string" where
  "identityToAddress identity =
     (if identity = ''mayor'' \<or> identity = ''mayor/'' then ''mayor/''
      else if identity = ''deacon'' \<or> identity = ''deacon/'' then ''deacon/''
      else
        let parts = splitOn (CHR ''/'') identity
        in if length parts = 3 \<and> (parts ! 1 = ''crew'' \<or> parts ! 1 = ''polecats'')
           then parts ! 0 @ ''/'' @ parts ! 2
           else identity)"

text \<open>Proof vocabulary for the two address functions: the trimming step and the test on
  the split parts that both of them perform.\<close>

definition trimSlash :: "string \<Rightarrow> string" where
  "trimSlash a = (if a \<noteq> [] \<and> last a = CHR ''/'' then butlast a else a)"

definition crew3 :: "string list \<Rightarrow> bool" where
  "crew3 parts = (length parts = 3 \<and> (parts ! 1 = ''crew'' \<or> parts ! 1 = ''polecats''))"

section \<open>The scratch log \<open>spawned_issues\<close> (internal/witness/manager.go)\<close>

text \<open>
  \<open>clearWaiting\<close>: keeps, in order, the entries that do not start with \<open>key\<close>.  The
  caller passes \<open>key = "waiting:" + name\<close>.
\<close>

fun clearWaitingLoop :: "string list \<Rightarrow> string \<Rightarrow> string list \<Rightarrow> string list" where
  "clearWaitingLoop filtered key [] = filtered"
| "clearWaitingLoop filtered key (entry # rest) =
     (if \<not> hasPrefix entry key then clearWaitingLoop (filtered @ [entry]) key rest
      else clearWaitingLoop filtered key rest)"

definition clearWaiting :: "string list \<Rightarrow> string \<Rightarrow> string list" where
  "clearWaiting spawnedIssues key = clearWaitingLoop [] key spawnedIssues"

section \<open>Time\<close>

text \<open>
  A \<open>time.Time\<close> is the number of nanoseconds since Go's zero time (1 January of year 1,
  00:00:00 UTC), so \<open>IsZero\<close> is equality with 0.  A \<open>time.Duration\<close> is a signed 64-bit
  count of nanoseconds; \<open>Time.Sub\<close> (and so \<open>time.Since\<close>) saturates at the two ends.
\<close>

type_synonym time = int

definition minDuration :: int where
  "minDuration = - (2 ^ 63)"

definition maxDuration :: int where
  "maxDuration = 2 ^ 63 - 1"

definition since :: "time \<Rightarrow> time \<Rightarrow> int" where
  "since now t =
     (let d = now - t
      in if d > maxDuration then maxDuration
         else if d < minDuration then minDuration
         else d)"

definition Minute :: int where
  "Minute = 60 * 1000000000"


text \<open>\<open>x++\<close> on a Go \<open>int\<close> (64 bits, two's complement).\<close>

definition wrap64 :: "int \<Rightarrow> int" where
  "wrap64 x = (x + 2 ^ 63) mod 2 ^ 64 - 2 ^ 63"

section \<open>Supervisor state\<close>

text \<open>
  Modelled from the spec: the declarations of \<open>WorkerState\<close>, \<open>WitnessHandoffState\<close>,
  \<open>Witness\<close>, \<open>WitnessConfig\<close> and \<open>WitnessStats\<close> (the package's types file) are not
  among the sources; the fields are the ones manager.go reads and writes, with the types the
  data model gives them.  A Go map is a partial function; the nil map reads as the empty one.
\<close>

record WorkerState =
  NudgeCount :: int
  LastNudge :: "time option"
  LastActive :: "time option"
  Issue :: string
  ArmID :: string

definition zeroWorkerState :: WorkerState where
  "zeroWorkerState =
     \<lparr>NudgeCount = 0, LastNudge = None, LastActive = None, Issue = [], ArmID = []\<rparr>"

record WitnessHandoffState =
  WorkerStates :: "string \<rightharpoonup> WorkerState"
  PatrolInstanceID :: string
  LastPatrol :: "time option"

record WitnessConfig =
  AutoSpawn :: bool
  MaxWorkers :: int
  SpawnDelayMs :: int
  EpicID :: string
  IssuePrefix :: string

record WitnessStats =
  TotalNudges :: int
  TodayNudges :: int
  TotalEscalations :: int

record Witness =
  Config :: WitnessConfig
  SpawnedIssues :: "string list"
  Stats :: WitnessStats

text \<open>The fields of \<open>Manager\<close> that the monitoring code uses; \<open>handoffState\<close> is a
  pointer and may be nil.\<close>

record Manager =
  rigName :: string
  handoffState :: "WitnessHandoffState option"

record WitnessMessage =
  MsgID :: string
  Subject :: string
  Body :: string
  From :: string

record ReadyIssue =
  ID :: string
  Title :: string
  Type :: string
  Status :: string

text \<open>
  Modelled from the spec: \<open>git.UncommittedWorkStatus\<close> and its methods \<open>Clean\<close> and
  \<open>String\<close> belong to package \<open>git\<close>, which is not among the sources.  The fields are
  the ones \<open>cleanupPolecat\<close> reads; \<open>Clean\<close> follows the cleaner's rule "if any of
  (modified, untracked, stash_count, unpushed_count) is non-zero, abort".  \<open>String\<close> is a
  parameter of the environment below.
\<close>

record UncommittedWorkStatus =
  HasUncommittedChanges :: bool
  ModifiedFiles :: "string list"
  UntrackedFiles :: "string list"
  StashCount :: int
  UnpushedCommits :: int

text \<open>
  Modelled from the spec: the method \<open>UncommittedWorkStatus.Clean\<close> (package \<open>git\<close>, not
  among the sources): clean when modified, untracked, stash and unpushed counts are all zero.
\<close>

definition Clean :: "UncommittedWorkStatus \<Rightarrow> bool" where
  "Clean st \<longleftrightarrow>
     length (ModifiedFiles st) = 0 \<and> length (UntrackedFiles st) = 0 \<and>
     StashCount st = 0 \<and> UnpushedCommits st = 0"

section \<open>The world outside the supervisor\<close>

text \<open>
  Everything the supervisor does to the outside is a subprocess or a file operation.  The
  operations that change something are recorded, in order, as effects; \<open>fmt.Printf\<close> output
  is not modelled, so "only logs" is the empty list of effects.  \<open>Sleep d\<close> is
  \<open>time.Sleep\<close> of the \<open>time.Duration\<close> \<open>d\<close>, in nanoseconds.
\<close>

datatype effect =
    SendMail string string
  | AckMessage string
  | StopSession string
  | RemoveWorktree string
  | DeleteBranch string
  | SpawnPolecat string
  | Sleep int
  | WriteStateFile
  | UpdateHandoffBead

text \<open>The result of \<open>polecat.Manager.RemoveWithOptions\<close>, as \<open>cleanupPolecat\<close>
  distinguishes it.\<close>

datatype removeResult = Removed | ErrPolecatNotFound | RemoveFailed string

text \<open>The five paths below a worktree whose modification time the health check reads.\<close>

datatype probe = GitDir | StateFile | GitHeadLog | GitIndex | IssuesFile

text \<open>
  What the collaborators answer.  An error is the left summand, carrying its text; a
  function of a name answers for that polecat.  \<open>stat\<close> is \<open>None\<close> where \<open>os.Stat\<close>
  fails.  \<open>parseRFC3339\<close> and \<open>formatRFC3339\<close> stand for \<open>time.Parse\<close> and
  \<open>Time.Format\<close> with layout \<open>time.RFC3339\<close>.
\<close>

record env =
  now :: time
  stat :: "string \<Rightarrow> probe \<Rightarrow> time option"
  parseRFC3339 :: "string \<Rightarrow> time option"
  formatRFC3339 :: "time \<Rightarrow> string"
  checkUncommittedWork :: "string \<Rightarrow> string + UncommittedWorkStatus"
  statusString :: "UncommittedWorkStatus \<Rightarrow> string"
  isRunning :: "string \<Rightarrow> bool \<times> string option"
  removeWithOptions :: "string \<Rightarrow> removeResult"
  polecatDirExists :: "string \<Rightarrow> bool"
  gitStatus :: "string \<Rightarrow> string + bool"
  branchPushedToRemote :: "string \<Rightarrow> string + bool \<times> int"
  getPolecatIssue :: "string \<Rightarrow> string"
  isIssueClosed :: "string \<Rightarrow> string + bool"
  getActivePolecatCount :: "string + int"
  getReadyIssues :: "string + ReadyIssue list"
  isChildOfEpic :: "string \<Rightarrow> string \<Rightarrow> string + bool"
  spawnPolecat :: "string \<Rightarrow> string option"
  saveState :: "string option"

section \<open>Health check\<close>

datatype PolecatHealthStatus = PolecatHealthy | PolecatStuck | PolecatDead

definition StuckThresholdMinutes :: int where
  "StuckThresholdMinutes = 30"

text \<open>\<open>getLatestModTime\<close>: the loop over the three key locations, starting from the zero
  time; \<open>After\<close> is \<open>>\<close>.\<close>

fun latestLoop :: "(probe \<Rightarrow> time option) \<Rightarrow> time \<Rightarrow> probe list \<Rightarrow> time" where
  "latestLoop st latest [] = latest"
| "latestLoop st latest (loc # locations) =
     (case st loc of
        Some modTime \<Rightarrow>
          if modTime > latest then latestLoop st modTime locations
          else latestLoop st latest locations
      | None \<Rightarrow> latestLoop st latest locations)"

definition getLatestModTime :: "env \<Rightarrow> string \<Rightarrow> time" where
  "getLatestModTime e name = latestLoop (stat e name) 0 [GitHeadLog, GitIndex, IssuesFile]"

definition checkPolecatHealth :: "env \<Rightarrow> string \<Rightarrow> PolecatHealthStatus" where
  "checkPolecatHealth e name =
     (let threshold = StuckThresholdMinutes * Minute;
          recent = (\<lambda>info. case info of
                              Some modTime \<Rightarrow> since (now e) modTime < threshold
                            | None \<Rightarrow> False)
      in if recent (stat e name GitDir) then PolecatHealthy
         else if recent (stat e name StateFile) then PolecatHealthy
         else
           let latestMod = getLatestModTime e name
           in if latestMod \<noteq> 0 \<and> since (now e) latestMod < threshold then PolecatHealthy
              else PolecatStuck)"

section \<open>Nudges and escalation\<close>

text \<open>\<open>sendNudge\<close> and \<open>escalateToMayor\<close>: the mail command with its recipient and subject
  (the body repeats the subject's data and the time).  A failure to send only changes the log.\<close>

definition sendNudge :: "Manager \<Rightarrow> string \<Rightarrow> string \<Rightarrow> effect" where
  "sendNudge m polecatName reason =
     SendMail (rigName m @ ''/'' @ polecatName) (''NUDGE: Cannot shutdown - '' @ reason)"

definition escalateToMayor :: "Manager \<Rightarrow> string \<Rightarrow> effect" where
  "escalateToMayor m polecatName =
     SendMail ''mayor/'' (''ESCALATION: Polecat '' @ polecatName @ '' stuck'')"

fun countEntries :: "string \<Rightarrow> string list \<Rightarrow> int" where
  "countEntries key [] = 0"
| "countEntries key (entry # rest) =
     (if entry = key then countEntries key rest + 1 else countEntries key rest)"

definition getNudgeCount :: "Manager \<Rightarrow> Witness \<Rightarrow> string \<Rightarrow> int" where
  "getNudgeCount m w polecatName =
     (case handoffState m of
        Some h \<Rightarrow>
          (case WorkerStates h polecatName of
             Some ws \<Rightarrow> NudgeCount ws
           | None \<Rightarrow> countEntries (''nudge:'' @ polecatName) (SpawnedIssues w))
      | None \<Rightarrow> countEntries (''nudge:'' @ polecatName) (SpawnedIssues w))"

text \<open>Reading a Go map at a missing key gives the zero value.\<close>

definition lookupWorker :: "WitnessHandoffState \<Rightarrow> string \<Rightarrow> WorkerState" where
  "lookupWorker h polecatName =
     (case WorkerStates h polecatName of Some ws \<Rightarrow> ws | None \<Rightarrow> zeroWorkerState)"

definition recordNudge ::
  "env \<Rightarrow> Manager \<Rightarrow> Witness \<Rightarrow> string \<Rightarrow> Manager \<times> Witness \<times> effect list" where
  "recordNudge e m w polecatName =
     (let (m', fx) =
            (case handoffState m of
               Some h \<Rightarrow>
                 let ws = lookupWorker h polecatName;
                     ws' = ws\<lparr>NudgeCount := wrap64 (NudgeCount ws + 1), LastNudge := Some (now e)\<rparr>;
                     h' = h\<lparr>WorkerStates := (WorkerStates h)(polecatName \<mapsto> ws')\<rparr>
                 in (m\<lparr>handoffState := Some h'\<rparr>, [UpdateHandoffBead])
             | None \<Rightarrow> (m, []));
          w' = w\<lparr>SpawnedIssues := SpawnedIssues w @ [''nudge:'' @ polecatName]\<rparr>
      in (m', w', fx))"

definition handleStuckPolecat ::
  "env \<Rightarrow> Manager \<Rightarrow> Witness \<Rightarrow> string \<Rightarrow> Manager \<times> Witness \<times> effect list" where
  "handleStuckPolecat e m w polecatName =
     (let nudgeCount = getNudgeCount m w polecatName
      in if nudgeCount = 0 then
           let (m', w', fx) = recordNudge e m w polecatName;
               st = Stats w'
           in (m',
               w'\<lparr>Stats := st\<lparr>TotalNudges := wrap64 (TotalNudges st + 1),
                               TodayNudges := wrap64 (TodayNudges st + 1)\<rparr>\<rparr>,
               sendNudge m polecatName ''No activity detected. Are you still working?'' # fx)
         else if nudgeCount = 1 then
           let st = Stats w;
               w1 = w\<lparr>Stats := st\<lparr>TotalEscalations := wrap64 (TotalEscalations st + 1)\<rparr>\<rparr>;
               (m', w', fx) = recordNudge e m w1 polecatName
           in (m', w', escalateToMayor m polecatName # fx)
         else (m, w, []))"

section \<open>Done and waiting tags\<close>

definition hasSentDone :: "Witness \<Rightarrow> string \<Rightarrow> bool" where
  "hasSentDone w polecatName \<longleftrightarrow> (''done:'' @ polecatName) \<in> set (SpawnedIssues w)"

definition recordDone :: "Witness \<Rightarrow> string \<Rightarrow> Witness \<times> effect list" where
  "recordDone w polecatName =
     (if (''done:'' @ polecatName) \<in> set (SpawnedIssues w) then (w, [])
      else (w\<lparr>SpawnedIssues := SpawnedIssues w @ [''done:'' @ polecatName]\<rparr>, [WriteStateFile]))"

fun waitingLoop :: "(string \<Rightarrow> time option) \<Rightarrow> string \<Rightarrow> string list \<Rightarrow> time" where
  "waitingLoop parse key [] = 0"
| "waitingLoop parse key (entry # rest) =
     (if hasPrefix entry (key @ '':'') then
        (case parse (drop (length key + 1) entry) of
           Some ts \<Rightarrow> ts
         | None \<Rightarrow> waitingLoop parse key rest)
      else waitingLoop parse key rest)"

definition getWaitingTimestamp :: "env \<Rightarrow> Witness \<Rightarrow> string \<Rightarrow> time" where
  "getWaitingTimestamp e w key = waitingLoop (parseRFC3339 e) key (SpawnedIssues w)"

definition recordWaiting :: "env \<Rightarrow> Witness \<Rightarrow> string \<Rightarrow> Witness \<times> effect list" where
  "recordWaiting e w key =
     (w\<lparr>SpawnedIssues := SpawnedIssues w @ [key @ '':'' @ formatRFC3339 e (now e)]\<rparr>,
      [WriteStateFile])"

text \<open>\<open>clearWaiting\<close> as the method on the state: the filter above, then the state file.\<close>

definition clearWaitingW :: "Witness \<Rightarrow> string \<Rightarrow> Witness \<times> effect list" where
  "clearWaitingW w key =
     (w\<lparr>SpawnedIssues := clearWaiting (SpawnedIssues w) key\<rparr>, [WriteStateFile])"

section \<open>Text helpers of the dispatcher\<close>

text \<open>\<open>%d\<close> of \<open>fmt\<close>: decimal digits, with a minus sign for a negative number.\<close>

function showNat :: "nat \<Rightarrow> string" where
  "showNat n =
     (if n < 10 then [char_of (48 + n)]
      else showNat (n div 10) @ [char_of (48 + n mod 10)])"
  by pat_completeness auto
termination
  by (relation "measure id") auto

declare showNat.simps [simp del]

definition showInt :: "int \<Rightarrow> string" where
  "showInt i = (if i < 0 then CHR ''-'' # showNat (nat (- i)) else showNat (nat i))"

text \<open>
  \<open>strings.TrimSpace\<close> removes leading and trailing white space as Unicode defines it.
  On the bytes of the string these are the UTF-8 encodings of the runes for which
  \<open>unicode.IsSpace\<close> holds: tab, line feed, vertical tab, form feed, carriage return, space,
  U+0085, U+00A0, U+1680, U+2000 to U+200A, U+2028, U+2029, U+202F, U+205F and U+3000.
\<close>

definition spaceRunes :: "string list" where
  "spaceRunes =
     [[CHR 0x09], [CHR 0x0A], [CHR 0x0B], [CHR 0x0C], [CHR 0x0D], [CHR 0x20],
      [CHR 0xC2, CHR 0x85], [CHR 0xC2, CHR 0xA0],
      [CHR 0xE1, CHR 0x9A, CHR 0x80],
      [CHR 0xE2, CHR 0x80, CHR 0x80], [CHR 0xE2, CHR 0x80, CHR 0x81],
      [CHR 0xE2, CHR 0x80, CHR 0x82], [CHR 0xE2, CHR 0x80, CHR 0x83],
      [CHR 0xE2, CHR 0x80, CHR 0x84], [CHR 0xE2, CHR 0x80, CHR 0x85],
      [CHR 0xE2, CHR 0x80, CHR 0x86], [CHR 0xE2, CHR 0x80, CHR 0x87],
      [CHR 0xE2, CHR 0x80, CHR 0x88], [CHR 0xE2, CHR 0x80, CHR 0x89],
      [CHR 0xE2, CHR 0x80, CHR 0x8A],
      [CHR 0xE2, CHR 0x80, CHR 0xA8], [CHR 0xE2, CHR 0x80, CHR 0xA9],
      [CHR 0xE2, CHR 0x80, CHR 0xAF], [CHR 0xE2, CHR 0x81, CHR 0x9F],
      [CHR 0xE3, CHR 0x80, CHR 0x80]]"

text \<open>The number of bytes of the space rune at the front of the string, 0 if there is none.\<close>

definition leadingSpace :: "string \<Rightarrow> nat" where
  "leadingSpace s =
     (case filter (hasPrefix s) spaceRunes of [] \<Rightarrow> 0 | r # _ \<Rightarrow> length r)"

definition trailingSpace :: "string \<Rightarrow> nat" where
  "trailingSpace s =
     (case filter (hasSuffix s) spaceRunes of [] \<Rightarrow> 0 | r # _ \<Rightarrow> length r)"

function trimLeftSpace :: "string \<Rightarrow> string" where
  "trimLeftSpace s =
     (if 0 < leadingSpace s then trimLeftSpace (drop (leadingSpace s) s) else s)"
  by pat_completeness auto
termination
proof (relation "measure length")
  show "wf (measure length)" by simp
next
  fix s :: string
  assume pos: "0 < leadingSpace s"
  have "s \<noteq> []"
  proof
    assume "s = []"
    then have "leadingSpace s = 0"
      by (simp add: leadingSpace_def hasPrefix_def spaceRunes_def)
    with pos show False by simp
  qed
  with pos show "(drop (leadingSpace s) s, s) \<in> measure length" by simp
qed

function trimRightSpace :: "string \<Rightarrow> string" where
  "trimRightSpace s =
     (if 0 < trailingSpace s then trimRightSpace (take (length s - trailingSpace s) s) else s)"
  by pat_completeness auto
termination
proof (relation "measure length")
  show "wf (measure length)" by simp
next
  fix s :: string
  assume pos: "0 < trailingSpace s"
  have "s \<noteq> []"
  proof
    assume "s = []"
    then have "trailingSpace s = 0"
      by (simp add: trailingSpace_def hasSuffix_def spaceRunes_def)
    with pos show False by simp
  qed
  with pos show "(take (length s - trailingSpace s) s, s) \<in> measure length" by simp
qed

declare trimLeftSpace.simps [simp del] trimRightSpace.simps [simp del]

definition TrimSpace :: "string \<Rightarrow> string" where
  "TrimSpace s = trimRightSpace (trimLeftSpace s)"

text \<open>\<open>extractPolecatNameFromDone\<close>: the subject after the prefix, trimmed.\<close>

definition extractPolecatNameFromDone :: "string \<Rightarrow> string" where
  "extractPolecatNameFromDone subject =
     (if hasPrefix subject ''POLECAT_DONE ''
      then TrimSpace (drop (length ''POLECAT_DONE '') subject) else [])"

text \<open>
  \<open>extractPolecatName\<close>: the first submatch of the regular expression
  \<open>Polecat:\s*(\S+)\<close> in the body, empty without a match.  \<open>\s\<close> is tab, line feed,
  form feed, carriage return or space.  At an occurrence of \<open>Polecat:\<close> the expression
  matches exactly when a character other than these follows the white space after the
  colon, and the submatch is the longest run of such characters; the leftmost occurrence
  that matches wins.
\<close>

definition reSpace :: "char \<Rightarrow> bool" where
  "reSpace c \<longleftrightarrow> c = CHR 0x09 \<or> c = CHR 0x0A \<or> c = CHR 0x0C \<or> c = CHR 0x0D \<or> c = CHR 0x20"

fun extractPolecatName :: "string \<Rightarrow> string" where
  "extractPolecatName [] = []"
| "extractPolecatName (c # cs) =
     (if hasPrefix (c # cs) ''Polecat:'' then
        (let rest = dropWhile reSpace (drop (length ''Polecat:'') (c # cs))
         in if rest \<noteq> [] then takeWhile (\<lambda>x. \<not> reSpace x) rest
            else extractPolecatName cs)
      else extractPolecatName cs)"

section \<open>Verification and cleanup\<close>

text \<open>\<open>verifyPolecatState\<close>: \<open>None\<close> is the nil error.  A failure to ask the remote is a
  warning only.\<close>

definition verifyPolecatState :: "env \<Rightarrow> string \<Rightarrow> string option" where
  "verifyPolecatState e polecatName =
     (if \<not> polecatDirExists e polecatName then None
      else
        (case gitStatus e polecatName of
           Inl err \<Rightarrow> Some (''checking git status: '' @ err)
         | Inr clean \<Rightarrow>
             if \<not> clean then Some ''git working tree is not clean''
             else
               let branchName = ''polecat/'' @ polecatName
               in (case branchPushedToRemote e polecatName of
                     Inl err \<Rightarrow> None
                   | Inr (pushed, unpushedCount) \<Rightarrow>
                       if \<not> pushed then
                         Some (''branch '' @ branchName @ '' has '' @ showInt unpushedCount
                               @ '' unpushed commit(s) - run '' @ [CHR 0x27] @ ''git push origin ''
                               @ branchName @ [CHR 0x27] @ '' before closing'')
                       else None)))"

text \<open>
  \<open>cleanupPolecat\<close>: the check for uncommitted work, then the three destructive steps.
  The result is the effects performed and the error returned (\<open>None\<close> for nil).  When
  the check itself fails the code warns and goes on.  Stopping the session and deleting the
  branch are best effort: their failure is a warning.
\<close>

definition destroyPolecat :: "env \<Rightarrow> string \<Rightarrow> effect list \<times> string option" where
  "destroyPolecat e polecatName =
     (let kill = (case isRunning e polecatName of
                    (running, None) \<Rightarrow> if running then [StopSession polecatName] else []
                  | (running, Some err) \<Rightarrow> [])
      in (case removeWithOptions e polecatName of
            RemoveFailed err \<Rightarrow>
              (kill @ [RemoveWorktree polecatName], Some (''removing worktree: '' @ err))
          | _ \<Rightarrow>
              (kill @ [RemoveWorktree polecatName, DeleteBranch (''polecat/'' @ polecatName)],
               None)))"

definition cleanupPolecat :: "env \<Rightarrow> string \<Rightarrow> effect list \<times> string option" where
  "cleanupPolecat e polecatName =
     (case checkUncommittedWork e polecatName of
        Inl err \<Rightarrow> destroyPolecat e polecatName
      | Inr status \<Rightarrow>
          if \<not> Clean status then
            ([], Some (''polecat '' @ polecatName @ '' has uncommitted work: ''
                       @ statusString e status))
          else destroyPolecat e polecatName)"

text \<open>The steps that destroy something: the session, the worktree, the branch.\<close>

fun destructive :: "effect \<Rightarrow> bool" where
  "destructive (StopSession n) = True"
| "destructive (RemoveWorktree n) = True"
| "destructive (DeleteBranch b) = True"
| "destructive other = False"

section \<open>Mailbox drain\<close>

text \<open>The tail shared by both kinds of request: verify, clean up, acknowledge.  A failed
  verification is answered with a nudge carrying the reason; after a failed verification or
  cleanup the message is not acknowledged.\<close>

definition verifyCleanupAck ::
  "env \<Rightarrow> Manager \<Rightarrow> string \<Rightarrow> string \<Rightarrow> effect list" where
  "verifyCleanupAck e m polecatName msgId =
     (case verifyPolecatState e polecatName of
        Some err \<Rightarrow> [sendNudge m polecatName err]
      | None \<Rightarrow>
          (case cleanupPolecat e polecatName of
             (fx, Some err) \<Rightarrow> fx
           | (fx, None) \<Rightarrow> fx @ [AckMessage msgId]))"

text \<open>The body of the loop of \<open>processShutdownRequests\<close> for one message.\<close>

definition processMessage ::
  "env \<Rightarrow> Manager \<Rightarrow> Witness \<Rightarrow> WitnessMessage \<Rightarrow> Witness \<times> effect list" where
  "processMessage e m w msg =
     (if hasPrefix (Subject msg) ''POLECAT_DONE '' then
        (let polecatName = extractPolecatNameFromDone (Subject msg)
         in if polecatName = [] then (w, [AckMessage (MsgID msg)])
            else
              let (w', fx) = recordDone w polecatName
              in (w', fx @ verifyCleanupAck e m polecatName (MsgID msg)))
      else if containsStr (Subject msg) ''LIFECYCLE:'' \<and> containsStr (Subject msg) ''shutdown'' then
        (let polecatName = extractPolecatName (Body msg)
         in if polecatName = [] then (w, [AckMessage (MsgID msg)])
            else if \<not> hasSentDone w polecatName then
              (w, [sendNudge m polecatName
                     (''Please run '' @ [CHR 0x27] @ ''gt done'' @ [CHR 0x27]
                      @ '' to signal completion'')])
            else (w, verifyCleanupAck e m polecatName (MsgID msg)))
      else (w, []))"

text \<open>The mailbox at the next drain: the unread messages are the ones not acknowledged.\<close>

definition acknowledged :: "effect list \<Rightarrow> string \<Rightarrow> bool" where
  "acknowledged fx msgId \<longleftrightarrow> AckMessage msgId \<in> set fx"

definition nextInbox :: "WitnessMessage list \<Rightarrow> effect list \<Rightarrow> WitnessMessage list" where
  "nextInbox messages fx = filter (\<lambda>msg. \<not> acknowledged fx (MsgID msg)) messages"

section \<open>Pending-completion watchdog\<close>

definition PendingCompletionTimeout :: int where
  "PendingCompletionTimeout = 10 * Minute"

text \<open>The body of the loop of \<open>checkPendingCompletions\<close> for one polecat.\<close>

definition checkPendingPolecat ::
  "env \<Rightarrow> Manager \<Rightarrow> Witness \<Rightarrow> string \<Rightarrow> Witness \<times> effect list" where
  "checkPendingPolecat e m w name =
     (if \<not> fst (isRunning e name) then (w, [])
      else if hasSentDone w name then (w, [])
      else
        let issueID = getPolecatIssue e name
        in if issueID = [] then (w, [])
           else
             (case isIssueClosed e issueID of
                Inl err \<Rightarrow> (w, [])
              | Inr closed \<Rightarrow>
                  if \<not> closed then (w, [])
                  else
                    let waitKey = ''waiting:'' @ name;
                        waitingSince = getWaitingTimestamp e w waitKey
                    in if waitingSince = 0 then
                         (let (w', fx) = recordWaiting e w waitKey
                          in (w', fx @ [sendNudge m name
                                (''Your issue is closed. Please run '' @ [CHR 0x27] @ ''gt done''
                                 @ [CHR 0x27] @ '' to complete shutdown.'')]))
                       else if since (now e) waitingSince > PendingCompletionTimeout then
                         (case verifyPolecatState e name of
                            Some err \<Rightarrow> (w, [escalateToMayor m name])
                          | None \<Rightarrow>
                              (case cleanupPolecat e name of
                                 (fx, Some err) \<Rightarrow> (w, fx)
                               | (fx, None) \<Rightarrow>
                                   let (w', fx') = clearWaitingW w waitKey
                                   in (w', fx @ fx')))
                       else (w, [])))"

section \<open>Auto-spawn\<close>







section \<open>Handoff record\<close>

text \<open>
  \<open>findMatchingBrace\<close>: the loop over the string with its three variables; the result is
  the index of the brace that brings the depth back to 0, or -1.  The Go loop ranges over
  runes and yields byte offsets; every byte of a multi-byte rune is 0x80 or above and so
  none of the four characters the loop looks for, hence the loop over bytes finds the same
  index.
\<close>

fun braceLoop :: "int \<Rightarrow> bool \<Rightarrow> bool \<Rightarrow> nat \<Rightarrow> string \<Rightarrow> int" where
  "braceLoop depth inString escaped i [] = - 1"
| "braceLoop depth inString escaped i (c # cs) =
     (if escaped then braceLoop depth inString False (i + 1) cs
      else if c = CHR 0x5C \<and> inString then braceLoop depth inString True (i + 1) cs
      else if c = CHR 0x22 then braceLoop depth (\<not> inString) escaped (i + 1) cs
      else if inString then braceLoop depth inString escaped (i + 1) cs
      else if c = CHR ''{'' then braceLoop (depth + 1) inString escaped (i + 1) cs
      else if c = CHR ''}'' then
        (if depth - 1 = 0 then int i
         else braceLoop (depth - 1) inString escaped (i + 1) cs)
      else braceLoop depth inString escaped (i + 1) cs)"

definition findMatchingBrace :: "string \<Rightarrow> int" where
  "findMatchingBrace s = braceLoop 0 False False 0 s"

text \<open>\<open>strings.Index(desc, "{")\<close>: the offset of the first occurrence, or -1.\<close>

fun indexFrom :: "nat \<Rightarrow> char \<Rightarrow> string \<Rightarrow> int" where
  "indexFrom i b [] = - 1"
| "indexFrom i b (c # cs) = (if c = b then int i else indexFrom (i + 1) b cs)"

definition indexByte :: "string \<Rightarrow> char \<Rightarrow> int" where
  "indexByte s b = indexFrom 0 b s"

text \<open>The description that \<open>saveHandoffState\<close> writes around the serialised state:
  a sentence naming the rig, an empty line, and the state in a fenced block.\<close>

definition handoffDescription :: "Manager \<Rightarrow> string \<Rightarrow> string" where
  "handoffDescription m stateJSON =
     ''Witness handoff state for '' @ rigName m @ [CHR ''.'', CHR 0x0A, CHR 0x0A]
       @ [CHR 0x60, CHR 0x60, CHR 0x60] @ ''json'' @ [CHR 0x0A] @ stateJSON
       @ [CHR 0x0A, CHR 0x60, CHR 0x60, CHR 0x60]"

text \<open>
  The parse step of \<open>loadHandoffState\<close>, from the description to the state.
  \<open>unmarshal text state\<close> stands for \<open>json.Unmarshal\<close> into \<open>state\<close> (\<open>None\<close> when it
  returns an error); the state it starts from has an empty map.
\<close>

definition emptyHandoffState :: WitnessHandoffState where
  "emptyHandoffState = \<lparr>WorkerStates = Map.empty, PatrolInstanceID = [], LastPatrol = None\<rparr>"

definition parseHandoffDescription ::
  "(string \<Rightarrow> WitnessHandoffState \<Rightarrow> WitnessHandoffState option) \<Rightarrow> string \<Rightarrow> WitnessHandoffState" where
  "parseHandoffDescription unmarshal desc =
     (let state = emptyHandoffState;
          idx = indexByte desc (CHR ''{'')
      in if idx \<ge> 0 then
           let jsonPart = drop (nat idx) desc;
               endIdx = findMatchingBrace jsonPart
           in if endIdx > 0 then
                (case unmarshal (take (nat (endIdx + 1)) jsonPart) state of
                   None \<Rightarrow> emptyHandoffState
                 | Some state' \<Rightarrow> state')
              else state
         else state)"

section \<open>JSON documents as \<open>json.MarshalIndent\<close> lays them out\<close>

text \<open>
  \<open>json.MarshalIndent(state, "", "  ")\<close> belongs to Go's library.  For a struct it writes
  a JSON object, one member or element per line, indented by two spaces per level, with
  \<open>": "\<close> after a key and the empty containers as \<open>{}\<close> and \<open>[]\<close>.  A string of the
  document is given by the bytes between its quotes, as the encoder escaped them.
\<close>

datatype json =
    JNull
  | JBool bool
  | JNumber int
  | JString string
  | JArray "json list"
  | JObject "(string \<times> json) list"

definition newline :: "nat \<Rightarrow> string" where
  "newline depth = CHR 0x0A # replicate (2 * depth) (CHR '' '')"

definition quoted :: "string \<Rightarrow> string" where
  "quoted body = CHR 0x22 # body @ [CHR 0x22]"

fun render :: "nat \<Rightarrow> json \<Rightarrow> string"
  and renderItems :: "nat \<Rightarrow> json list \<Rightarrow> string"
  and renderMembers :: "nat \<Rightarrow> (string \<times> json) list \<Rightarrow> string" where
  "render d JNull = ''null''"
| "render d (JBool b) = (if b then ''true'' else ''false'')"
| "render d (JNumber n) = showInt n"
| "render d (JString body) = quoted body"
| "render d (JArray []) = ''[]''"
| "render d (JArray (v # vs)) =
     ''['' @ newline (d + 1) @ renderItems (d + 1) (v # vs) @ newline d @ '']''"
| "render d (JObject []) = ''{}''"
| "render d (JObject (kv # kvs)) =
     ''{'' @ newline (d + 1) @ renderMembers (d + 1) (kv # kvs) @ newline d @ ''}''"
| "renderItems d [] = []"
| "renderItems d [v] = render d v"
| "renderItems d (v # w # vs) = render d v @ '','' @ newline d @ renderItems d (w # vs)"
| "renderMembers d [] = []"
| "renderMembers d [(k, v)] = quoted k @ '': '' @ render d v"
| "renderMembers d ((k, v) # kv # kvs) =
     quoted k @ '': '' @ render d v @ '','' @ newline d @ renderMembers d (kv # kvs)"

text \<open>
  What JSON requires of the bytes between the quotes of a string, as far as quotes and
  backslashes go: a backslash starts an escape and takes the next byte with it, and a quote
  appears only as the second byte of an escape.
\<close>

fun stringBody :: "string \<Rightarrow> bool" where
  "stringBody [] = True"
| "stringBody [c] = (c \<noteq> CHR 0x5C \<and> c \<noteq> CHR 0x22)"
| "stringBody (c # e # cs) =
     (if c = CHR 0x5C then stringBody cs
      else c \<noteq> CHR 0x22 \<and> stringBody (e # cs))"

fun wellFormed :: "json \<Rightarrow> bool"
  and wellFormedItems :: "json list \<Rightarrow> bool"
  and wellFormedMembers :: "(string \<times> json) list \<Rightarrow> bool" where
  "wellFormed (JString body) = stringBody body"
| "wellFormed (JArray vs) = wellFormedItems vs"
| "wellFormed (JObject kvs) = wellFormedMembers kvs"
| "wellFormed other = True"
| "wellFormedItems [] = True"
| "wellFormedItems (v # vs) = (wellFormed v \<and> wellFormedItems vs)"
| "wellFormedMembers [] = True"
| "wellFormedMembers ((k, v) # kvs) = (stringBody k \<and> wellFormed v \<and> wellFormedMembers kvs)"

text \<open>Proof vocabulary for the brace matcher: the characters it passes over outside a
  string, and the texts it passes over at any depth of at least 1.\<close>

definition plain :: "char \<Rightarrow> bool" where
  "plain c \<longleftrightarrow> c \<noteq> CHR 0x22 \<and> c \<noteq> CHR 0x5C \<and> c \<noteq> CHR ''{'' \<and> c \<noteq> CHR ''}''"

definition neutral :: "string \<Rightarrow> bool" where
  "neutral x \<longleftrightarrow>
     (\<forall>depth i rest. 1 \<le> depth \<longrightarrow>
        braceLoop depth False False i (x @ rest) = braceLoop depth False False (i + length x) rest)"

section \<open>The liveness rule in the words of the specification\<close>

text \<open>
  A modification time is within the 30-minute window when less than 30 minutes lie between
  it and now; a file that cannot be read has no modification time.  The most recent of
  some files is the latest modification time among those that exist.  The canonical files
  are the git HEAD log, the git index and the issues store file.
\<close>

definition withinWindow :: "env \<Rightarrow> time option \<Rightarrow> bool" where
  "withinWindow e info =
     (case info of Some modTime \<Rightarrow> now e - modTime < 30 * Minute | None \<Rightarrow> False)"

definition mostRecent :: "time option list \<Rightarrow> time option" where
  "mostRecent infos =
     (case List.map_filter id infos of [] \<Rightarrow> None | t # ts \<Rightarrow> Some (fold max ts t))"

definition canonicalMtimes :: "env \<Rightarrow> string \<Rightarrow> time option list" where
  "canonicalMtimes e name = map (stat e name) [GitHeadLog, GitIndex, IssuesFile]"

section \<open>A reference environment\<close>

text \<open>
  The environment of the worked examples: the clock reads 2026-01-01T00:00:00Z, every
  polecat is running with a clean, pushed worktree, and nothing else is there.  The
  examples override the answers they are about.
\<close>

definition quietEnv :: env where
  "quietEnv =
     \<lparr>now = 63902822400000000000,
      stat = (\<lambda>name loc. None),
      parseRFC3339 = (\<lambda>text. None),
      formatRFC3339 = (\<lambda>t. []),
      checkUncommittedWork = (\<lambda>name. Inr \<lparr>HasUncommittedChanges = False, ModifiedFiles = [],
         UntrackedFiles = [], StashCount = 0, UnpushedCommits = 0\<rparr>),
      statusString = (\<lambda>st. []),
      isRunning = (\<lambda>name. (True, None)),
      removeWithOptions = (\<lambda>name. Removed),
      polecatDirExists = (\<lambda>name. True),
      gitStatus = (\<lambda>name. Inr True),
      branchPushedToRemote = (\<lambda>name. Inr (True, 0)),
      getPolecatIssue = (\<lambda>name. []),
      isIssueClosed = (\<lambda>issue. Inr False),
      getActivePolecatCount = Inr 0,
      getReadyIssues = Inr [],
      isChildOfEpic = (\<lambda>issue epic. Inr False),
      spawnPolecat = (\<lambda>issue. None),
      saveState = None\<rparr>"

definition atBoundary :: env where
  "atBoundary = quietEnv\<lparr>stat := (\<lambda>name loc. if loc = GitDir then Some (63902822400000000000 - 30 * Minute) else None)\<rparr>"

definition insideWindow :: env where
  "insideWindow = quietEnv\<lparr>stat := (\<lambda>name loc. if loc = GitIndex then Some (63902822400000000000 - 30 * Minute + 1) else None)\<rparr>"



definition capFour :: Witness where
  "capFour =
     \<lparr>Config = \<lparr>AutoSpawn = True, MaxWorkers = 4, SpawnDelayMs = 1, EpicID = [], IssuePrefix = []\<rparr>,
      SpawnedIssues = [],
      Stats = \<lparr>TotalNudges = 0, TodayNudges = 0, TotalEscalations = 0\<rparr>\<rparr>"




text \<open>The rig of the examples, with a handoff record that knows no worker yet.\<close>

definition gastown :: Manager where
  "gastown = \<lparr>rigName = ''gastown'',
              handoffState = Some \<lparr>WorkerStates = Map.empty, PatrolInstanceID = [], LastPatrol = None\<rparr>\<rparr>"

text \<open>Cleanup: a worktree whose check for uncommitted work fails, and one with a stash.\<close>

definition notAGitRepo :: env where
  "notAGitRepo = quietEnv\<lparr>checkUncommittedWork := (\<lambda>name. Inl ''not a git repository'')\<rparr>"

definition oneStash :: UncommittedWorkStatus where
  "oneStash = \<lparr>HasUncommittedChanges = False, ModifiedFiles = [], UntrackedFiles = [],
     StashCount = 1, UnpushedCommits = 0\<rparr>"

definition stashed :: env where
  "stashed = quietEnv\<lparr>checkUncommittedWork := (\<lambda>name. Inr oneStash),
                      statusString := (\<lambda>st. ''1 stash(es)'')\<rparr>"

text \<open>The watchdog: polecat Joe works on bd-123, which is closed; the waiting tag was
  recorded at 2026-01-01T00:00:00Z; the clock is read 9:59, 10:00, 10:01 and 11:00 later.\<close>

definition joeClosed :: env where
  "joeClosed =
     quietEnv\<lparr>getPolecatIssue := (\<lambda>name. ''bd-123''),
              isIssueClosed := (\<lambda>issue. Inr True),
              parseRFC3339 := (\<lambda>text. if text = ''2026-01-01T00:00:00Z''
                                        then Some 63902822400000000000 else None),
              formatRFC3339 := (\<lambda>t. ''2026-01-01T00:00:00Z'')\<rparr>"

definition joeWaiting :: Witness where
  "joeWaiting = capFour\<lparr>SpawnedIssues := [''waiting:Joe:2026-01-01T00:00:00Z'']\<rparr>"

definition joeStashed :: env where
  "joeStashed = joeClosed\<lparr>now := 63902822400000000000 + 11 * Minute,
       checkUncommittedWork := (\<lambda>name. Inr \<lparr>HasUncommittedChanges = False, ModifiedFiles = [],
          UntrackedFiles = [], StashCount = 1, UnpushedCommits = 0\<rparr>),
       statusString := (\<lambda>st. ''1 stash(es)'')\<rparr>"

definition at599 :: env where
  "at599 = joeClosed\<lparr>now := 63902822400000000000 + 10 * Minute - 1000000000\<rparr>"

definition at600 :: env where
  "at600 = joeClosed\<lparr>now := 63902822400000000000 + 10 * Minute\<rparr>"

definition at601 :: env where
  "at601 = joeClosed\<lparr>now := 63902822400000000000 + 10 * Minute + 1000000000\<rparr>"

definition joeDirty :: env where
  "joeDirty = at601\<lparr>gitStatus := (\<lambda>name. Inr False)\<rparr>"

text \<open>The mailbox: a message with given id, subject and body; a witness that has
  recorded \<open>done:Toast\<close>; a witness whose legacy log holds one nudge of Rictus.\<close>

definition msg :: "string \<Rightarrow> string \<Rightarrow> string \<Rightarrow> WitnessMessage" where
  "msg i s b = \<lparr>MsgID = i, Subject = s, Body = b, From = ''gastown/Toast''\<rparr>"

definition toastDone :: Witness where
  "toastDone = capFour\<lparr>SpawnedIssues := [''done:Toast'']\<rparr>"

definition legacyNudged :: Witness where
  "legacyNudged = capFour\<lparr>SpawnedIssues := [''nudge:Rictus'']\<rparr>"

text \<open>The handoff record: a state with one nudged worker, its document, a decoder that
  knows this one document, and a rig whose name contains a brace.\<close>

definition decodeOnly ::
  "string \<Rightarrow> WitnessHandoffState \<Rightarrow> string \<Rightarrow> WitnessHandoffState \<Rightarrow> WitnessHandoffState option" where
  "decodeOnly document state = (\<lambda>text init. if text = document then Some state else None)"

definition toastNudged :: WitnessHandoffState where
  "toastNudged =
     \<lparr>WorkerStates = [''Toast'' \<mapsto> \<lparr>NudgeCount = 1, LastNudge = None, LastActive = None,
                                    Issue = [], ArmID = ''gt-{7''\<rparr>],
      PatrolInstanceID = ''gt-patrol'', LastPatrol = None\<rparr>"

definition toastDocument :: json where
  "toastDocument =
     JObject [(''worker_states'',
               JObject [(''Toast'', JObject [(''nudge_count'', JNumber 1),
                                            (''arm_id'', JString ''gt-{7'')])]),
              (''patrol_instance_id'', JString ''gt-patrol'')]"

definition bracedRig :: Manager where
  "bracedRig = \<lparr>rigName = ''r{'', handoffState = None\<rparr>"

section \<open>Properties\<close>

subsection \<open>Strings\<close>

lemma hasPrefix_append: "hasPrefix (p @ s) p"
  by (simp add: hasPrefix_def)

lemma hasPrefix_iff: "hasPrefix s p \<longleftrightarrow> (\<exists>t. s = p @ t)"
proof
  assume "hasPrefix s p"
  then have "s = p @ drop (length p) s"
    unfolding hasPrefix_def by (metis append_take_drop_id)
  then show "\<exists>t. s = p @ t" ..
next
  assume "\<exists>t. s = p @ t"
  then show "hasPrefix s p" by (auto simp: hasPrefix_def)
qed

lemma splitOn_nonempty: "splitOn sep s \<noteq> []"
  by (induction s) (auto split: list.splits)

lemma splitOn_no_sep: "p \<in> set (splitOn sep s) \<Longrightarrow> sep \<notin> set p"
proof (induction s arbitrary: p)
  case Nil
  then show ?case by simp
next
  case (Cons c cs)
  show ?case
  proof (cases "c = sep")
    case True
    with Cons show ?thesis by auto
  next
    case False
    obtain q qs where q: "splitOn sep cs = q # qs"
      using splitOn_nonempty [of sep cs] by (cases "splitOn sep cs") auto
    from Cons.prems False q have "p = c # q \<or> p \<in> set qs" by auto
    then show ?thesis
    proof
      assume "p = c # q"
      moreover have "sep \<notin> set q" using Cons.IH [of q] q by simp
      ultimately show ?thesis using False by auto
    next
      assume "p \<in> set qs"
      then show ?thesis using Cons.IH [of p] q by simp
    qed
  qed
qed

lemma splitOn_plain: "sep \<notin> set s \<Longrightarrow> splitOn sep s = [s]"
  by (induction s) auto

lemma splitOn_append: "sep \<notin> set a \<Longrightarrow> splitOn sep (a @ sep # b) = a # splitOn sep b"
  by (induction a) auto


subsection \<open>Mail addresses\<close>

lemma splitOn_join:
  "foldr (\<lambda>p acc. p @ sep # acc) (butlast (splitOn sep s)) (last (splitOn sep s)) = s"
proof (induction s)
  case Nil
  then show ?case by simp
next
  case (Cons c cs)
  obtain q qs where q: "splitOn sep cs = q # qs"
    using splitOn_nonempty [of sep cs] by (cases "splitOn sep cs") auto
  show ?case
  proof (cases "c = sep")
    case True
    with Cons q show ?thesis by simp
  next
    case False
    with Cons q show ?thesis by (cases qs) auto
  qed
qed

lemma splitOn_three: "splitOn sep s = [x, y, z] \<Longrightarrow> s = x @ sep # y @ sep # z"
  using splitOn_join [of sep s] by simp

lemma addressToIdentity_alt:
  "addressToIdentity a =
     (if a = ''mayor'' \<or> a = ''mayor/'' then ''mayor/''
      else if a = ''deacon'' \<or> a = ''deacon/'' then ''deacon/''
      else if crew3 (splitOn (CHR ''/'') (trimSlash a))
           then splitOn (CHR ''/'') (trimSlash a) ! 0 @ ''/'' @ splitOn (CHR ''/'') (trimSlash a) ! 2
           else trimSlash a)"
proof -
  have eq: "(if length a > 0 \<and> a ! (length a - 1) = CHR ''/'' then take (length a - 1) a else a) = trimSlash a"
    by (cases "a = []") (simp_all add: trimSlash_def last_conv_nth butlast_conv_take)
  show ?thesis
    by (simp only: addressToIdentity_def eq Let_def crew3_def)
qed

lemma identityToAddress_alt:
  "identityToAddress a =
     (if a = ''mayor'' \<or> a = ''mayor/'' then ''mayor/''
      else if a = ''deacon'' \<or> a = ''deacon/'' then ''deacon/''
      else if crew3 (splitOn (CHR ''/'') a)
           then splitOn (CHR ''/'') a ! 0 @ ''/'' @ splitOn (CHR ''/'') a ! 2
           else a)"
  unfolding identityToAddress_def crew3_def Let_def by simp

lemma crew3_parts:
  assumes "crew3 (splitOn (CHR ''/'') s)"
  obtains p0 p1 p2 where "splitOn (CHR ''/'') s = [p0, p1, p2]"
    and "CHR ''/'' \<notin> set p0" and "CHR ''/'' \<notin> set p2"
    and "s = p0 @ CHR ''/'' # p1 @ CHR ''/'' # p2"
proof -
  from assms have len: "length (splitOn (CHR ''/'') s) = 3" by (simp add: crew3_def)
  then obtain p0 p1 p2 where ps: "splitOn (CHR ''/'') s = [p0, p1, p2]"
    by (auto simp: length_Suc_conv numeral_3_eq_3)
  have "CHR ''/'' \<notin> set p0" "CHR ''/'' \<notin> set p2"
    using splitOn_no_sep [of p0 "CHR ''/''" s] splitOn_no_sep [of p2 "CHR ''/''" s] ps by auto
  moreover have "s = p0 @ CHR ''/'' # p1 @ CHR ''/'' # p2"
    using splitOn_three [OF ps] .
  ultimately show ?thesis using that ps by blast
qed

lemma splitOn_two:
  "CHR ''/'' \<notin> set p0 \<Longrightarrow> CHR ''/'' \<notin> set p2 \<Longrightarrow> splitOn (CHR ''/'') (p0 @ CHR ''/'' # p2) = [p0, p2]"
  by (simp add: splitOn_append splitOn_plain)

lemma not_crew3_two: "\<not> crew3 [p, q]"
  by (simp add: crew3_def)

lemma trimSlash_eq: "trimSlash a = t \<Longrightarrow> a = t \<or> a = t @ ''/''"
  unfolding trimSlash_def
  by (metis append_butlast_last_id)

lemma trimSlash_last: "\<not> hasSuffix a ''//'' \<Longrightarrow> trimSlash a = [] \<or> last (trimSlash a) \<noteq> CHR ''/''"
proof (cases "a \<noteq> [] \<and> last a = CHR ''/''")
  case False
  then show ?thesis by (auto simp: trimSlash_def)
next
  case True
  assume ns: "\<not> hasSuffix a ''//''"
  from True have a: "a = butlast a @ ''/''" by (metis append_butlast_last_id)
  show ?thesis
  proof (rule ccontr)
    assume "\<not> ?thesis"
    with True have "butlast a \<noteq> []" "last (butlast a) = CHR ''/''" by (auto simp: trimSlash_def)
    then have "butlast a = butlast (butlast a) @ ''/''" by (metis append_butlast_last_id)
    with a have "a = butlast (butlast a) @ ''//''" by (metis append_Cons append_Nil append_assoc)
    then have "hasSuffix a ''//''" 
      by (metis (no_types, lifting) hasSuffix_def add_diff_cancel_right' append_eq_conv_conj le_add2 length_append)
    with ns show False by simp
  qed
qed

lemma a2i_fixpoint:
  assumes "r \<noteq> ''mayor''" "r \<noteq> ''deacon''" "r = [] \<or> last r \<noteq> CHR ''/''"
    and "\<not> crew3 (splitOn (CHR ''/'') r)"
  shows "addressToIdentity r = r"
proof -
  from assms(3) have t: "trimSlash r = r" by (auto simp: trimSlash_def)
  from assms(3) have "r \<noteq> ''mayor/''" "r \<noteq> ''deacon/''" by auto
  with assms t show ?thesis by (simp add: addressToIdentity_alt)
qed

lemma i2a_fixpoint:
  assumes "r \<noteq> ''mayor''" "r \<noteq> ''deacon''" "\<not> crew3 (splitOn (CHR ''/'') r)"
  shows "identityToAddress r = r"
  using assms by (auto simp add: identityToAddress_alt)

lemma a2i_image:
  obtains "addressToIdentity a = ''mayor/''" | "addressToIdentity a = ''deacon/''"
  | p0 p2 where "addressToIdentity a = p0 @ CHR ''/'' # p2" "CHR ''/'' \<notin> set p0" "CHR ''/'' \<notin> set p2"
      "p2 = [] \<longrightarrow> trimSlash a \<noteq> [] \<and> last (trimSlash a) = CHR ''/''"
  | "addressToIdentity a = trimSlash a" "trimSlash a \<noteq> ''mayor''" "trimSlash a \<noteq> ''deacon''"
      "\<not> crew3 (splitOn (CHR ''/'') (trimSlash a))"
proof (cases "a = ''mayor'' \<or> a = ''mayor/'' \<or> a = ''deacon'' \<or> a = ''deacon/''")
  case True
  then show ?thesis using that(1,2) by (auto simp: addressToIdentity_alt)
next
  case False
  show ?thesis
  proof (cases "crew3 (splitOn (CHR ''/'') (trimSlash a))")
    case True
    then obtain p0 p1 p2 where ps: "splitOn (CHR ''/'') (trimSlash a) = [p0, p1, p2]"
      and s: "CHR ''/'' \<notin> set p0" "CHR ''/'' \<notin> set p2"
      and j: "trimSlash a = p0 @ CHR ''/'' # p1 @ CHR ''/'' # p2"
      by (rule crew3_parts)
    have "addressToIdentity a = p0 @ CHR ''/'' # p2"
      using False True ps by (simp add: addressToIdentity_alt)
    moreover have "p2 = [] \<longrightarrow> trimSlash a \<noteq> [] \<and> last (trimSlash a) = CHR ''/''"
      using j by auto
    ultimately show ?thesis using that(3) s by blast
  next
    case nc: False
    have "addressToIdentity a = trimSlash a"
      using False nc by (simp add: addressToIdentity_alt)
    moreover have "trimSlash a \<noteq> ''mayor''" "trimSlash a \<noteq> ''deacon''"
      using False trimSlash_eq [of a "''mayor''"] trimSlash_eq [of a "''deacon''"] by auto
    ultimately show ?thesis using that(4) nc by blast
  qed
qed

lemma slash_not_town:
  "p0 @ CHR ''/'' # p2 \<noteq> ''mayor''" "p0 @ CHR ''/'' # p2 \<noteq> ''deacon''"
proof -
  have m: "CHR ''/'' \<in> set (p0 @ CHR ''/'' # p2)" by simp
  show "p0 @ CHR ''/'' # p2 \<noteq> ''mayor''"
  proof
    assume "p0 @ CHR ''/'' # p2 = ''mayor''"
    with m have "CHR ''/'' \<in> set ''mayor''" by simp
    then show False by simp
  qed
  show "p0 @ CHR ''/'' # p2 \<noteq> ''deacon''"
  proof
    assume "p0 @ CHR ''/'' # p2 = ''deacon''"
    with m have "CHR ''/'' \<in> set ''deacon''" by simp
    then show False by simp
  qed
qed

lemma identityToAddress_addressToIdentity: "identityToAddress (addressToIdentity a) = addressToIdentity a"
proof (cases a rule: a2i_image)
  case 1
  then show ?thesis by (simp add: identityToAddress_alt)
next
  case 2
  then show ?thesis by (simp add: identityToAddress_alt)
next
  case (3 p0 p2)
  have sp: "splitOn (CHR ''/'') (p0 @ CHR ''/'' # p2) = [p0, p2]"
    using 3 by (simp add: splitOn_two)
  have "identityToAddress (p0 @ CHR ''/'' # p2) = p0 @ CHR ''/'' # p2"
    by (rule i2a_fixpoint) (simp_all add: slash_not_town sp not_crew3_two)
  with 3 show ?thesis by simp
next
  case 4
  then show ?thesis by (simp add: i2a_fixpoint)
qed

lemma addressToIdentity_idem:
  assumes "\<not> hasSuffix a ''//''"
  shows "addressToIdentity (addressToIdentity a) = addressToIdentity a"
proof (cases a rule: a2i_image)
  case 1
  then show ?thesis by (simp add: addressToIdentity_alt)
next
  case 2
  then show ?thesis by (simp add: addressToIdentity_alt)
next
  case (3 p0 p2)
  from 3(4) trimSlash_last [OF assms] have ne: "p2 \<noteq> []" by auto
  let ?r = "p0 @ CHR ''/'' # p2"
  have sp: "splitOn (CHR ''/'') ?r = [p0, p2]"
    using 3 by (simp add: splitOn_two)
  have l: "last ?r \<noteq> CHR ''/''" using ne 3(3) by (metis last_in_set last_appendR last_ConsR list.distinct(1))
  have "addressToIdentity ?r = ?r"
    using l sp by (intro a2i_fixpoint) (simp_all add: not_crew3_two slash_not_town)
  with 3 show ?thesis by simp
next
  case 4
  with trimSlash_last [OF assms] show ?thesis by (simp add: a2i_fixpoint)
qed

lemma addressToIdentity_collapse:
  assumes "CHR ''/'' \<notin> set rig" "CHR ''/'' \<notin> set x" "x \<noteq> []"
  shows "addressToIdentity (rig @ ''/polecats/'' @ x) = rig @ ''/'' @ x"
    and "addressToIdentity (rig @ ''/crew/'' @ x) = rig @ ''/'' @ x"
proof -
  have lx: "last x \<noteq> CHR ''/''" using assms(2,3) by (metis last_in_set)
  { fix mid :: string
    assume mid: "CHR ''/'' \<notin> set mid" "mid = ''crew'' \<or> mid = ''polecats''"
    let ?a = "rig @ CHR ''/'' # mid @ CHR ''/'' # x"
    have l: "last ?a \<noteq> CHR ''/''" using lx assms(3) by simp
    then have t: "trimSlash ?a = ?a" by (simp add: trimSlash_def)
    have sp: "splitOn (CHR ''/'') ?a = [rig, mid, x]"
      using assms mid by (simp add: splitOn_append splitOn_plain)
    have ne: "?a \<noteq> ''mayor''" "?a \<noteq> ''deacon''" by (rule slash_not_town)+
    have "last ''mayor/'' = CHR ''/''" "last ''deacon/'' = CHR ''/''" by simp_all
    with l have ne': "?a \<noteq> ''mayor/''" "?a \<noteq> ''deacon/''" by metis+
    have "addressToIdentity ?a = rig @ ''/'' @ x"
      using ne ne' mid(2) by (simp only: addressToIdentity_alt t sp crew3_def) simp
  } note main = this
  show "addressToIdentity (rig @ ''/polecats/'' @ x) = rig @ ''/'' @ x"
    using main [of "''polecats''"] by simp
  show "addressToIdentity (rig @ ''/crew/'' @ x) = rig @ ''/'' @ x"
    using main [of "''crew''"] by simp
qed


text \<open>
  C8, amended.  Canonicalisation is \<open>addressToIdentity\<close>.  It is idempotent on every
  address that does not end in two slashes (it trims one trailing slash only), and
  \<open>identityToAddress\<close> leaves every canonical form as it is, so
  \<open>identityToAddress (addressToIdentity a)\<close> is the canonical form of \<open>a\<close> for every
  string \<open>a\<close>.  \<open>rig/polecats/X\<close> and \<open>rig/crew/X\<close> collapse to \<open>rig/X\<close> (for a rig
  and a non-empty name without slashes), and mayor and deacon get their trailing slash.
\<close>

theorem address_canonicalization:
  "(\<not> hasSuffix a ''//'' \<longrightarrow> addressToIdentity (addressToIdentity a) = addressToIdentity a) \<and>
   identityToAddress (addressToIdentity a) = addressToIdentity a \<and>
   (CHR ''/'' \<notin> set rig \<and> CHR ''/'' \<notin> set x \<and> x \<noteq> [] \<longrightarrow>
      addressToIdentity (rig @ ''/polecats/'' @ x) = rig @ ''/'' @ x \<and>
      addressToIdentity (rig @ ''/crew/'' @ x) = rig @ ''/'' @ x) \<and>
   addressToIdentity ''mayor'' = ''mayor/'' \<and> addressToIdentity ''mayor/'' = ''mayor/'' \<and>
   addressToIdentity ''deacon'' = ''deacon/'' \<and> addressToIdentity ''deacon/'' = ''deacon/''"
proof -
  have town: "addressToIdentity ''mayor'' = ''mayor/''" "addressToIdentity ''mayor/'' = ''mayor/''"
    "addressToIdentity ''deacon'' = ''deacon/''" "addressToIdentity ''deacon/'' = ''deacon/''"
    by (simp_all add: addressToIdentity_def)
  show ?thesis
    using addressToIdentity_idem [of a] identityToAddress_addressToIdentity [of a]
      addressToIdentity_collapse [of rig x] town
    by blast
qed

theorem address_canonicalization_witness:
  "\<not> hasSuffix ''gastown/crew/max/'' ''//'' \<and>
   addressToIdentity ''gastown/crew/max/'' = ''gastown/max'' \<and>
   addressToIdentity (addressToIdentity ''gastown/crew/max/'') = addressToIdentity ''gastown/crew/max/'' \<and>
   identityToAddress (addressToIdentity ''gastown/crew/max/'') = ''gastown/max'' \<and>
   CHR ''/'' \<notin> set ''gastown'' \<and> CHR ''/'' \<notin> set ''Toast'' \<and> ''Toast'' \<noteq> [] \<and>
   addressToIdentity (''gastown'' @ ''/polecats/'' @ ''Toast'') = ''gastown'' @ ''/'' @ ''Toast''"
proof -
  have h: "\<not> hasSuffix ''gastown/crew/max/'' ''//''"
    by (simp add: hasSuffix_def)
  have v: "addressToIdentity ''gastown/crew/max/'' = ''gastown/max''"
    by (simp add: addressToIdentity_def)
  have k: "CHR ''/'' \<notin> set ''gastown'' \<and> CHR ''/'' \<notin> set ''Toast'' \<and> ''Toast'' \<noteq> []"
    by simp
  show ?thesis
    using address_canonicalization [of "''gastown/crew/max/''" "''gastown''" "''Toast''"] h v k
    by simp
qed

text \<open>
  C8 as stated fails on an address with two trailing slashes: \<open>gastown//\<close> becomes
  \<open>gastown/\<close>, which becomes \<open>gastown\<close>.
\<close>

theorem address_canonicalization_not_idempotent:
  "addressToIdentity ''gastown//'' = ''gastown/'' \<and>
   addressToIdentity (addressToIdentity ''gastown//'') = ''gastown'' \<and>
   addressToIdentity (addressToIdentity ''gastown//'') \<noteq> addressToIdentity ''gastown//''"
  by (simp add: addressToIdentity_def)

subsection \<open>The scratch log\<close>

lemma clearWaitingLoop_filter:
  "clearWaitingLoop filtered key entries = filtered @ filter (\<lambda>entry. \<not> hasPrefix entry key) entries"
  by (induction entries arbitrary: filtered) auto

text \<open>
  C10.  \<open>clearWaiting\<close> for worker \<open>N\<close> is called with the key \<open>waiting:N\<close> and keeps
  exactly the entries that do not begin with that bare prefix, in their order.  So every
  entry \<open>waiting:N...\<close> is gone, whatever follows \<open>N\<close>: the entry of worker \<open>Joey\<close> goes
  when \<open>Joe\<close> is cleared.
\<close>

theorem clearWaiting_bare_prefix:
  "clearWaiting spawnedIssues (''waiting:'' @ N) =
     filter (\<lambda>entry. \<not> hasPrefix entry (''waiting:'' @ N)) spawnedIssues \<and>
   (''waiting:'' @ N @ tail) \<notin> set (clearWaiting spawnedIssues (''waiting:'' @ N)) \<and>
   clearWaiting [''waiting:Joe:t1'', ''bd-1'', ''waiting:Joey:t2'', ''done:Joe'', ''waiting:Bob:t3'']
       (''waiting:'' @ ''Joe'')
     = [''bd-1'', ''done:Joe'', ''waiting:Bob:t3'']"
proof -
  have eq: "clearWaiting spawnedIssues (''waiting:'' @ N) =
     filter (\<lambda>entry. \<not> hasPrefix entry (''waiting:'' @ N)) spawnedIssues"
    by (simp add: clearWaiting_def clearWaitingLoop_filter)
  have "hasPrefix (''waiting:'' @ N @ tail) (''waiting:'' @ N)"
    using hasPrefix_append [of "''waiting:'' @ N" tail] by simp
  then have gone: "(''waiting:'' @ N @ tail) \<notin> set (clearWaiting spawnedIssues (''waiting:'' @ N))"
    unfolding eq by simp
  have ex: "clearWaiting [''waiting:Joe:t1'', ''bd-1'', ''waiting:Joey:t2'', ''done:Joe'', ''waiting:Bob:t3'']
       (''waiting:'' @ ''Joe'') = [''bd-1'', ''done:Joe'', ''waiting:Bob:t3'']"
    by (simp add: clearWaiting_def hasPrefix_def)
  from eq gone ex show ?thesis by blast
qed

subsection \<open>Time\<close>

lemma since_less_iff:
  "minDuration < d \<Longrightarrow> d \<le> maxDuration \<Longrightarrow> since n t < d \<longleftrightarrow> n - t < d"
  by (auto simp: since_def Let_def)

lemma since_greater_iff:
  "minDuration \<le> d \<Longrightarrow> d < maxDuration \<Longrightarrow> since n t > d \<longleftrightarrow> n - t > d"
  by (auto simp: since_def Let_def)

subsection \<open>Health check\<close>

lemma threshold_range:
  "minDuration < StuckThresholdMinutes * Minute" "StuckThresholdMinutes * Minute \<le> maxDuration"
  by (simp_all add: minDuration_def maxDuration_def StuckThresholdMinutes_def Minute_def)

lemma latestLoop_fold:
  "latestLoop st latest locs = fold max (List.map_filter id (map st locs)) latest"
  by (induction locs arbitrary: latest) (auto simp: max_def split: option.splits)

lemma fold_max_max: "fold max xs (max a b) = max (a::int) (fold max xs b)"
proof (induction xs arbitrary: b)
  case Nil
  then show ?case by simp
next
  case (Cons x xs)
  have "max x (max a b) = max a (max x b)" by simp
  with Cons show ?case by simp
qed

lemma latest_recent:
  assumes "30 * Minute \<le> n"
  shows "(fold max ts 0 \<noteq> 0 \<and> n - fold max ts 0 < 30 * Minute) \<longleftrightarrow>
         (case ts of [] \<Rightarrow> False | t # r \<Rightarrow> n - fold max r t < 30 * Minute)"
proof (cases ts)
  case Nil
  then show ?thesis by simp
next
  case (Cons t r)
  have "fold max ts 0 = max 0 (fold max r t)"
    using fold_max_max [of r 0 t] Cons by (simp add: max.commute)
  with assms Cons show ?thesis by (auto simp: max_def)
qed

lemma fold_max_in: "fold max r (t::int) \<in> set (t # r)"
proof (induction r arbitrary: t)
  case Nil
  then show ?case by simp
next
  case (Cons x r)
  from Cons [of "max x t"] show ?case by (auto simp: max_def split: if_splits)
qed

lemma mostRecent_stat:
  assumes "mostRecent (canonicalMtimes e name) = Some t"
  shows "\<exists>loc. stat e name loc = Some t"
proof -
  from assms obtain x r where xr: "List.map_filter id (canonicalMtimes e name) = x # r"
    and t: "t = fold max r x"
    by (auto simp: mostRecent_def split: list.splits)
  have "t \<in> set (List.map_filter id (canonicalMtimes e name))"
    using fold_max_in [of r x] xr t by simp
  then show ?thesis
    by (auto simp: canonicalMtimes_def split: option.splits)
qed

text \<open>
  C7.  With the clock at least 30 minutes past Go's zero time (any real clock), the health
  check reports healthy exactly when the mtime of \<open>.git\<close>, the mtime of
  \<open>.runtime/state.json\<close>, or the most recent mtime of the three canonical files lies
  strictly within the 30-minute window; otherwise it reports stuck.  In particular a worker
  none of whose files is younger than exactly now minus 30 minutes is stuck.
\<close>

theorem checkPolecatHealth_window:
  assumes "StuckThresholdMinutes * Minute \<le> now e"
  shows "(checkPolecatHealth e name = PolecatHealthy \<longleftrightarrow>
            withinWindow e (stat e name GitDir) \<or> withinWindow e (stat e name StateFile) \<or>
            withinWindow e (mostRecent (canonicalMtimes e name))) \<and>
         (checkPolecatHealth e name \<noteq> PolecatHealthy \<longrightarrow> checkPolecatHealth e name = PolecatStuck) \<and>
         ((\<forall>loc t. stat e name loc = Some t \<longrightarrow> t \<le> now e - 30 * Minute) \<longrightarrow>
            checkPolecatHealth e name = PolecatStuck)"
proof -
  let ?thr = "StuckThresholdMinutes * Minute"
  have thr: "?thr = 30 * Minute" by (simp add: StuckThresholdMinutes_def)
  have s: "since (now e) t < ?thr \<longleftrightarrow> now e - t < 30 * Minute" for t
    using since_less_iff [OF threshold_range, of "now e" t] by (simp only: thr)
  have r: "\<And>info. (case info of Some modTime \<Rightarrow> since (now e) modTime < ?thr | None \<Rightarrow> False)
             = withinWindow e info"
    by (simp add: withinWindow_def s split: option.splits)
  let ?ts = "List.map_filter id (canonicalMtimes e name)"
  have l: "getLatestModTime e name = fold max ?ts 0"
    by (simp add: getLatestModTime_def latestLoop_fold canonicalMtimes_def)
  have c: "(getLatestModTime e name \<noteq> 0 \<and> since (now e) (getLatestModTime e name) < ?thr)
             \<longleftrightarrow> withinWindow e (mostRecent (canonicalMtimes e name))"
  proof -
    have "(fold max ?ts 0 \<noteq> 0 \<and> now e - fold max ?ts 0 < 30 * Minute) \<longleftrightarrow>
         (case ?ts of [] \<Rightarrow> False | t # r \<Rightarrow> now e - fold max r t < 30 * Minute)"
      using assms by (intro latest_recent) (simp only: thr)
    also have "\<dots> \<longleftrightarrow> withinWindow e (mostRecent (canonicalMtimes e name))"
      by (simp add: withinWindow_def mostRecent_def split: list.splits)
    finally show ?thesis by (simp only: l s)
  qed
  have iff: "checkPolecatHealth e name = PolecatHealthy \<longleftrightarrow>
            withinWindow e (stat e name GitDir) \<or> withinWindow e (stat e name StateFile) \<or>
            withinWindow e (mostRecent (canonicalMtimes e name))"
    unfolding checkPolecatHealth_def Let_def r using c by auto
  have stuck: "checkPolecatHealth e name \<noteq> PolecatHealthy \<longrightarrow> checkPolecatHealth e name = PolecatStuck"
    unfolding checkPolecatHealth_def Let_def by auto
  have old: "checkPolecatHealth e name = PolecatStuck"
    if a: "\<forall>loc t. stat e name loc = Some t \<longrightarrow> t \<le> now e - 30 * Minute"
  proof -
    have n: "\<not> withinWindow e (stat e name loc)" for loc
    proof (cases "stat e name loc")
      case None
      then show ?thesis by (simp add: withinWindow_def)
    next
      case (Some t)
      with a have "t \<le> now e - 30 * Minute" by blast
      with Some show ?thesis by (simp add: withinWindow_def)
    qed
    have "\<not> withinWindow e (mostRecent (canonicalMtimes e name))"
    proof (cases "mostRecent (canonicalMtimes e name)")
      case None
      then show ?thesis by (simp add: withinWindow_def)
    next
      case (Some t)
      from mostRecent_stat [OF Some] a have "t \<le> now e - 30 * Minute" by blast
      with Some show ?thesis by (simp add: withinWindow_def)
    qed
    with n iff stuck show ?thesis by blast
  qed
  from iff stuck old show ?thesis by blast
qed

text \<open>The boundary: a \<open>.git\<close> touched exactly 30 minutes ago means stuck, an index
  touched one nanosecond later means healthy.\<close>

theorem checkPolecatHealth_window_witness:
  "StuckThresholdMinutes * Minute \<le> now atBoundary \<and>
   \<not> withinWindow atBoundary (stat atBoundary ''Rictus'' GitDir) \<and>
   checkPolecatHealth atBoundary ''Rictus'' = PolecatStuck \<and>
   StuckThresholdMinutes * Minute \<le> now insideWindow \<and>
   withinWindow insideWindow (mostRecent (canonicalMtimes insideWindow ''Rictus'')) \<and>
   checkPolecatHealth insideWindow ''Rictus'' = PolecatHealthy"
proof -
  have h1: "StuckThresholdMinutes * Minute \<le> now atBoundary"
    by (simp add: atBoundary_def quietEnv_def StuckThresholdMinutes_def Minute_def)
  have h2: "StuckThresholdMinutes * Minute \<le> now insideWindow"
    by (simp add: insideWindow_def quietEnv_def StuckThresholdMinutes_def Minute_def)
  have a: "\<not> withinWindow atBoundary (stat atBoundary ''Rictus'' GitDir)"
    "\<not> withinWindow atBoundary (stat atBoundary ''Rictus'' StateFile)"
    "\<not> withinWindow atBoundary (mostRecent (canonicalMtimes atBoundary ''Rictus''))"
    by (simp_all add: atBoundary_def quietEnv_def withinWindow_def mostRecent_def canonicalMtimes_def
        Minute_def)
  have b: "withinWindow insideWindow (mostRecent (canonicalMtimes insideWindow ''Rictus''))"
    by (simp add: insideWindow_def quietEnv_def withinWindow_def mostRecent_def canonicalMtimes_def
        Minute_def)
  show ?thesis
    using checkPolecatHealth_window [OF h1, of "''Rictus''"] checkPolecatHealth_window [OF h2, of "''Rictus''"]
      h1 h2 a b
    by simp
qed

subsection \<open>Auto-spawn\<close>






subsection \<open>Cleanup\<close>

text \<open>
  C1, amended.  When \<open>cleanupPolecat\<close> succeeds, either the check for uncommitted work
  itself failed (the cleaner warns and goes on) or it returned modified=0, untracked=0,
  stash=0 and unpushed=0, before any destructive step.  When the check returns counts and
  one of them is not zero, cleanup returns the error "polecat N has uncommitted work: "
  followed by the status's own rendering, and performs no step at all.
\<close>

theorem cleanupPolecat_safety:
  "(cleanupPolecat e polecatName = (fx, None) \<longrightarrow>
      (\<exists>err. checkUncommittedWork e polecatName = Inl err) \<or>
      (\<exists>st. checkUncommittedWork e polecatName = Inr st \<and>
            length (ModifiedFiles st) = 0 \<and> length (UntrackedFiles st) = 0 \<and>
            StashCount st = 0 \<and> UnpushedCommits st = 0)) \<and>
   (checkUncommittedWork e polecatName = Inr status \<and>
      (length (ModifiedFiles status) \<noteq> 0 \<or> length (UntrackedFiles status) \<noteq> 0 \<or>
       StashCount status \<noteq> 0 \<or> UnpushedCommits status \<noteq> 0) \<longrightarrow>
      cleanupPolecat e polecatName =
        ([], Some (''polecat '' @ polecatName @ '' has uncommitted work: '' @ statusString e status)) \<and>
      \<not> (\<exists>x \<in> set (fst (cleanupPolecat e polecatName)). destructive x))"
proof -
  have a: "cleanupPolecat e polecatName = (fx, None) \<longrightarrow>
      (\<exists>err. checkUncommittedWork e polecatName = Inl err) \<or>
      (\<exists>st. checkUncommittedWork e polecatName = Inr st \<and>
            length (ModifiedFiles st) = 0 \<and> length (UntrackedFiles st) = 0 \<and>
            StashCount st = 0 \<and> UnpushedCommits st = 0)"
    by (cases "checkUncommittedWork e polecatName")
       (auto simp: cleanupPolecat_def Clean_def split: if_splits)
  have b: "cleanupPolecat e polecatName =
        ([], Some (''polecat '' @ polecatName @ '' has uncommitted work: '' @ statusString e status))"
    if "checkUncommittedWork e polecatName = Inr status"
      "length (ModifiedFiles status) \<noteq> 0 \<or> length (UntrackedFiles status) \<noteq> 0 \<or>
       StashCount status \<noteq> 0 \<or> UnpushedCommits status \<noteq> 0"
    using that by (auto simp: cleanupPolecat_def Clean_def)
  from a b show ?thesis by auto
qed

text \<open>
  C1 as stated fails when the check cannot be made: the worktree is not a git repository,
  no count is observed, and the session, the worktree and the branch are destroyed.
\<close>

theorem cleanupPolecat_unchecked_cleanup:
  "checkUncommittedWork notAGitRepo ''Toast'' = Inl ''not a git repository'' \<and>
   cleanupPolecat notAGitRepo ''Toast'' =
     ([StopSession ''Toast'', RemoveWorktree ''Toast'', DeleteBranch ''polecat/Toast''], None)"
  by (simp add: cleanupPolecat_def destroyPolecat_def notAGitRepo_def quietEnv_def)

text \<open>A clean worktree is cleaned; one stash stops the cleaner before any step.\<close>

theorem cleanupPolecat_safety_witness:
  "cleanupPolecat quietEnv ''Toast'' =
     ([StopSession ''Toast'', RemoveWorktree ''Toast'', DeleteBranch ''polecat/Toast''], None) \<and>
   (\<exists>st. checkUncommittedWork quietEnv ''Toast'' = Inr st \<and> StashCount st = 0) \<and>
   checkUncommittedWork stashed ''Toast'' = Inr oneStash \<and> StashCount oneStash \<noteq> 0 \<and>
   cleanupPolecat stashed ''Toast'' = ([], Some ''polecat Toast has uncommitted work: 1 stash(es)'')"
proof -
  have c: "cleanupPolecat quietEnv ''Toast'' =
     ([StopSession ''Toast'', RemoveWorktree ''Toast'', DeleteBranch ''polecat/Toast''], None)"
    by (simp add: cleanupPolecat_def destroyPolecat_def quietEnv_def Clean_def)
  have k: "checkUncommittedWork stashed ''Toast'' = Inr oneStash" "StashCount oneStash \<noteq> 0"
    by (simp_all add: stashed_def quietEnv_def oneStash_def)
  have n: "\<not> (\<exists>err. checkUncommittedWork quietEnv ''Toast'' = Inl err)"
    by (simp add: quietEnv_def)
  have s: "statusString stashed oneStash = ''1 stash(es)''"
    by (simp add: stashed_def)
  show ?thesis
    using cleanupPolecat_safety [of quietEnv "''Toast''" "[StopSession ''Toast'', RemoveWorktree ''Toast'', DeleteBranch ''polecat/Toast'']" oneStash]
      cleanupPolecat_safety [of stashed "''Toast''" "[]" oneStash] c k n s
    by auto
qed


subsection \<open>Pending-completion watchdog\<close>

lemma timeout_range:
  "minDuration \<le> PendingCompletionTimeout" "PendingCompletionTimeout < maxDuration"
  by (simp_all add: minDuration_def maxDuration_def PendingCompletionTimeout_def Minute_def)

text \<open>
  C3, amended.  For a running worker without a done tag whose issue is closed: on first
  observation (no waiting timestamp) the supervisor records \<open>waiting:name:timestamp\<close>
  and sends the nudge; while at most 10 minutes have elapsed since the timestamp it does
  nothing but log; once more than 10 minutes have elapsed it verifies the worker and, if
  the verification fails, escalates to mayor and leaves the tag; if the verification
  passes it runs cleanup, clears the waiting entries on success, and on a failed cleanup
  leaves the tag without sending anything.
\<close>

theorem checkPending_watchdog:
  assumes "fst (isRunning e name)" and "\<not> hasSentDone w name"
    and "getPolecatIssue e name \<noteq> []" and "isIssueClosed e (getPolecatIssue e name) = Inr True"
    and "waitingSince = getWaitingTimestamp e w (''waiting:'' @ name)"
  shows
    "(waitingSince = 0 \<longrightarrow>
        checkPendingPolecat e m w name =
          (w\<lparr>SpawnedIssues := SpawnedIssues w @ [''waiting:'' @ name @ '':'' @ formatRFC3339 e (now e)]\<rparr>,
           [WriteStateFile,
            SendMail (rigName m @ ''/'' @ name)
              (''NUDGE: Cannot shutdown - Your issue is closed. Please run '' @ [CHR 0x27] @ ''gt done''
                 @ [CHR 0x27] @ '' to complete shutdown.'')])) \<and>
     (waitingSince \<noteq> 0 \<and> now e - waitingSince \<le> 10 * Minute \<longrightarrow>
        checkPendingPolecat e m w name = (w, [])) \<and>
     (waitingSince \<noteq> 0 \<and> now e - waitingSince > 10 * Minute \<longrightarrow>
        (\<forall>err. verifyPolecatState e name = Some err \<longrightarrow>
           checkPendingPolecat e m w name =
             (w, [SendMail ''mayor/'' (''ESCALATION: Polecat '' @ name @ '' stuck'')])) \<and>
        (\<forall>fx err. verifyPolecatState e name = None \<and> cleanupPolecat e name = (fx, Some err) \<longrightarrow>
           checkPendingPolecat e m w name = (w, fx)) \<and>
        (\<forall>fx. verifyPolecatState e name = None \<and> cleanupPolecat e name = (fx, None) \<longrightarrow>
           checkPendingPolecat e m w name =
             (w\<lparr>SpawnedIssues := filter (\<lambda>entry. \<not> hasPrefix entry (''waiting:'' @ name)) (SpawnedIssues w)\<rparr>,
              fx @ [WriteStateFile])))"
proof -
  have t: "since (now e) waitingSince > PendingCompletionTimeout \<longleftrightarrow> now e - waitingSince > 10 * Minute"
    using since_greater_iff [OF timeout_range, of "now e" waitingSince]
    by (simp add: PendingCompletionTimeout_def)
  have c: "clearWaiting (SpawnedIssues w) (''waiting:'' @ name) =
      filter (\<lambda>entry. \<not> hasPrefix entry (''waiting:'' @ name)) (SpawnedIssues w)"
    by (simp add: clearWaiting_def clearWaitingLoop_filter)
  have first: "checkPendingPolecat e m w name =
          (w\<lparr>SpawnedIssues := SpawnedIssues w @ [''waiting:'' @ name @ '':'' @ formatRFC3339 e (now e)]\<rparr>,
           [WriteStateFile,
            SendMail (rigName m @ ''/'' @ name)
              (''NUDGE: Cannot shutdown - Your issue is closed. Please run '' @ [CHR 0x27] @ ''gt done''
                 @ [CHR 0x27] @ '' to complete shutdown.'')])"
    if "waitingSince = 0"
    using that assms
    by (simp add: checkPendingPolecat_def Let_def recordWaiting_def sendNudge_def)
  have wait: "checkPendingPolecat e m w name = (w, [])"
    if "waitingSince \<noteq> 0" "now e - waitingSince \<le> 10 * Minute"
    using that assms t
    by (simp add: checkPendingPolecat_def Let_def)
  have esc: "checkPendingPolecat e m w name =
             (w, [SendMail ''mayor/'' (''ESCALATION: Polecat '' @ name @ '' stuck'')])"
    if "waitingSince \<noteq> 0" "now e - waitingSince > 10 * Minute" "verifyPolecatState e name = Some err" for err
    using that assms t
    by (simp add: checkPendingPolecat_def Let_def escalateToMayor_def)
  have fail: "checkPendingPolecat e m w name = (w, fx)"
    if "waitingSince \<noteq> 0" "now e - waitingSince > 10 * Minute" "verifyPolecatState e name = None"
      "cleanupPolecat e name = (fx, Some err)" for fx err
    using that assms t
    by (simp add: checkPendingPolecat_def Let_def)
  have ok: "checkPendingPolecat e m w name =
             (w\<lparr>SpawnedIssues := filter (\<lambda>entry. \<not> hasPrefix entry (''waiting:'' @ name)) (SpawnedIssues w)\<rparr>,
              fx @ [WriteStateFile])"
    if "waitingSince \<noteq> 0" "now e - waitingSince > 10 * Minute" "verifyPolecatState e name = None"
      "cleanupPolecat e name = (fx, None)" for fx
    using that assms t c
    by (simp add: checkPendingPolecat_def Let_def clearWaitingW_def)
  from first wait esc fail ok show ?thesis by blast
qed

lemmas scenario_defs =
  quietEnv_def joeClosed_def at599_def at600_def at601_def joeDirty_def joeStashed_def
  joeWaiting_def capFour_def gastown_def

lemmas watchdog_defs =
  checkPendingPolecat_def hasSentDone_def getWaitingTimestamp_def hasPrefix_def
  recordWaiting_def sendNudge_def escalateToMayor_def since_def maxDuration_def minDuration_def
  PendingCompletionTimeout_def Minute_def verifyPolecatState_def cleanupPolecat_def
  destroyPolecat_def Clean_def clearWaitingW_def clearWaiting_def Let_def

text \<open>
  C3 as stated fails at the boundary: exactly 10 minutes after the timestamp, with a
  worktree that cleanup would remove, the watchdog does nothing.  And when the cleaner
  itself refuses (a stash, which the verification does not look at), nothing is sent to
  mayor.
\<close>

theorem checkPending_at_ten_minutes:
  "now at600 - getWaitingTimestamp at600 joeWaiting ''waiting:Joe'' = 10 * Minute \<and>
   verifyPolecatState at600 ''Joe'' = None \<and>
   cleanupPolecat at600 ''Joe'' =
     ([StopSession ''Joe'', RemoveWorktree ''Joe'', DeleteBranch ''polecat/Joe''], None) \<and>
   checkPendingPolecat at600 gastown joeWaiting ''Joe'' = (joeWaiting, []) \<and>
   now joeStashed - getWaitingTimestamp joeStashed joeWaiting ''waiting:Joe'' = 11 * Minute \<and>
   cleanupPolecat joeStashed ''Joe'' = ([], Some ''polecat Joe has uncommitted work: 1 stash(es)'') \<and>
   checkPendingPolecat joeStashed gastown joeWaiting ''Joe'' = (joeWaiting, [])"
  by (simp add: scenario_defs watchdog_defs)

text \<open>First observation, 9:59, 10:01 with a clean worktree, 10:01 with a dirty one.\<close>

theorem checkPending_watchdog_witness:
  "fst (isRunning joeClosed ''Joe'') \<and> \<not> hasSentDone capFour ''Joe'' \<and>
   getPolecatIssue joeClosed ''Joe'' = ''bd-123'' \<and> isIssueClosed joeClosed ''bd-123'' = Inr True \<and>
   getWaitingTimestamp joeClosed capFour ''waiting:Joe'' = 0 \<and>
   checkPendingPolecat joeClosed gastown capFour ''Joe'' =
     (joeWaiting,
      [WriteStateFile,
       SendMail ''gastown/Joe''
         (''NUDGE: Cannot shutdown - Your issue is closed. Please run '' @ [CHR 0x27] @ ''gt done''
            @ [CHR 0x27] @ '' to complete shutdown.'')]) \<and>
   now at599 - getWaitingTimestamp at599 joeWaiting ''waiting:Joe'' = 10 * Minute - 1000000000 \<and>
   checkPendingPolecat at599 gastown joeWaiting ''Joe'' = (joeWaiting, []) \<and>
   now at601 - getWaitingTimestamp at601 joeWaiting ''waiting:Joe'' = 10 * Minute + 1000000000 \<and>
   checkPendingPolecat at601 gastown joeWaiting ''Joe'' =
     (capFour, [StopSession ''Joe'', RemoveWorktree ''Joe'', DeleteBranch ''polecat/Joe'', WriteStateFile]) \<and>
   verifyPolecatState joeDirty ''Joe'' = Some ''git working tree is not clean'' \<and>
   checkPendingPolecat joeDirty gastown joeWaiting ''Joe'' =
     (joeWaiting, [SendMail ''mayor/'' ''ESCALATION: Polecat Joe stuck''])"
proof -
  have pre: "fst (isRunning joeClosed ''Joe'')" "\<not> hasSentDone capFour ''Joe''"
    "getPolecatIssue joeClosed ''Joe'' \<noteq> []"
    "isIssueClosed joeClosed (getPolecatIssue joeClosed ''Joe'') = Inr True"
    by (simp_all add: scenario_defs hasSentDone_def)
  have vals: "getPolecatIssue joeClosed ''Joe'' = ''bd-123''"
    "getWaitingTimestamp joeClosed capFour ''waiting:Joe'' = 0"
    "formatRFC3339 joeClosed (now joeClosed) = ''2026-01-01T00:00:00Z''"
    "rigName gastown = ''gastown''"
    "capFour\<lparr>SpawnedIssues := SpawnedIssues capFour @ [''waiting:Joe:2026-01-01T00:00:00Z'']\<rparr> = joeWaiting"
    by (simp_all add: scenario_defs getWaitingTimestamp_def)
  have later: "now at599 - getWaitingTimestamp at599 joeWaiting ''waiting:Joe'' = 10 * Minute - 1000000000"
    "checkPendingPolecat at599 gastown joeWaiting ''Joe'' = (joeWaiting, [])"
    "now at601 - getWaitingTimestamp at601 joeWaiting ''waiting:Joe'' = 10 * Minute + 1000000000"
    "checkPendingPolecat at601 gastown joeWaiting ''Joe'' =
     (capFour, [StopSession ''Joe'', RemoveWorktree ''Joe'', DeleteBranch ''polecat/Joe'', WriteStateFile])"
    "verifyPolecatState joeDirty ''Joe'' = Some ''git working tree is not clean''"
    "checkPendingPolecat joeDirty gastown joeWaiting ''Joe'' =
     (joeWaiting, [SendMail ''mayor/'' ''ESCALATION: Polecat Joe stuck''])"
    by (simp_all add: scenario_defs watchdog_defs)
  show ?thesis
    using checkPending_watchdog [OF pre refl, of gastown] pre vals later
    by simp
qed


subsection \<open>Mailbox drain\<close>

lemmas dispatch_defs =
  processMessage_def verifyCleanupAck_def recordDone_def hasSentDone_def sendNudge_def
  extractPolecatNameFromDone_def TrimSpace_def trimLeftSpace.simps trimRightSpace.simps
  leadingSpace_def trailingSpace_def spaceRunes_def
  hasPrefix_def hasSuffix_def reSpace_def verifyPolecatState_def cleanupPolecat_def
  destroyPolecat_def Clean_def acknowledged_def nextInbox_def Let_def

lemmas dispatch_scenario_defs = quietEnv_def capFour_def gastown_def msg_def toastDone_def

text \<open>
  C4, amended.  A message that is neither a \<open>POLECAT_DONE\<close> nor a lifecycle shutdown
  request is left alone: nothing is acknowledged, and it is in the next drain.  A message
  that is one of the two but yields no polecat name is acknowledged and so dropped.
\<close>

theorem processMessage_ack:
  "(\<not> hasPrefix (Subject m1) ''POLECAT_DONE '' \<and>
    \<not> (containsStr (Subject m1) ''LIFECYCLE:'' \<and> containsStr (Subject m1) ''shutdown'') \<longrightarrow>
      processMessage e m w m1 = (w, []) \<and> nextInbox [m1] (snd (processMessage e m w m1)) = [m1]) \<and>
   (hasPrefix (Subject m1) ''POLECAT_DONE '' \<and> extractPolecatNameFromDone (Subject m1) = [] \<longrightarrow>
      processMessage e m w m1 = (w, [AckMessage (MsgID m1)]) \<and>
      nextInbox [m1] (snd (processMessage e m w m1)) = []) \<and>
   (\<not> hasPrefix (Subject m1) ''POLECAT_DONE '' \<and>
    containsStr (Subject m1) ''LIFECYCLE:'' \<and> containsStr (Subject m1) ''shutdown'' \<and>
    extractPolecatName (Body m1) = [] \<longrightarrow>
      processMessage e m w m1 = (w, [AckMessage (MsgID m1)]) \<and>
      nextInbox [m1] (snd (processMessage e m w m1)) = [])"
  by (simp add: processMessage_def nextInbox_def acknowledged_def)

theorem processMessage_ack_witness:
  "\<not> hasPrefix ''HELP: Toast on bd-1'' ''POLECAT_DONE '' \<and>
   \<not> containsStr ''HELP: Toast on bd-1'' ''LIFECYCLE:'' \<and>
   processMessage quietEnv gastown capFour (msg ''m-1'' ''HELP: Toast on bd-1'' []) = (capFour, []) \<and>
   nextInbox [msg ''m-1'' ''HELP: Toast on bd-1'' []] [] = [msg ''m-1'' ''HELP: Toast on bd-1'' []] \<and>
   hasPrefix ''POLECAT_DONE  '' ''POLECAT_DONE '' \<and> extractPolecatNameFromDone ''POLECAT_DONE  '' = [] \<and>
   processMessage quietEnv gastown capFour (msg ''m-2'' ''POLECAT_DONE  '' []) = (capFour, [AckMessage ''m-2'']) \<and>
   containsStr ''LIFECYCLE: requesting shutdown'' ''LIFECYCLE:'' \<and>
   containsStr ''LIFECYCLE: requesting shutdown'' ''shutdown'' \<and>
   extractPolecatName ''no name here'' = [] \<and>
   processMessage quietEnv gastown capFour (msg ''m-3'' ''LIFECYCLE: requesting shutdown'' ''no name here'')
     = (capFour, [AckMessage ''m-3''])"
proof -
  have h1: "\<not> hasPrefix ''HELP: Toast on bd-1'' ''POLECAT_DONE ''"
    "\<not> containsStr ''HELP: Toast on bd-1'' ''LIFECYCLE:''"
    by (simp_all add: hasPrefix_def)
  have h2: "hasPrefix ''POLECAT_DONE  '' ''POLECAT_DONE ''" "extractPolecatNameFromDone ''POLECAT_DONE  '' = []"
    by (simp_all add: dispatch_defs)
  have h3: "\<not> hasPrefix ''LIFECYCLE: requesting shutdown'' ''POLECAT_DONE ''"
    "containsStr ''LIFECYCLE: requesting shutdown'' ''LIFECYCLE:''"
    "containsStr ''LIFECYCLE: requesting shutdown'' ''shutdown''"
    "extractPolecatName ''no name here'' = []"
    by (simp_all add: hasPrefix_def)
  have f: "Subject (msg i s b) = s" "Body (msg i s b) = b" "MsgID (msg i s b) = i" for i s b
    by (simp_all add: msg_def)
  show ?thesis
    using processMessage_ack [of "msg ''m-1'' ''HELP: Toast on bd-1'' []" quietEnv gastown capFour]
      processMessage_ack [of "msg ''m-2'' ''POLECAT_DONE  '' []" quietEnv gastown capFour]
      processMessage_ack [of "msg ''m-3'' ''LIFECYCLE: requesting shutdown'' ''no name here''" quietEnv gastown capFour]
      h1 h2 h3
    by (simp add: f hasPrefix_def nextInbox_def acknowledged_def)
qed

text \<open>
  C4 as stated fails on a \<open>POLECAT_DONE\<close> subject without a name: the message is
  acknowledged and is not in the next drain.
\<close>

theorem processMessage_acks_undecodable:
  "hasPrefix ''POLECAT_DONE  '' ''POLECAT_DONE '' \<and>
   extractPolecatNameFromDone ''POLECAT_DONE  '' = [] \<and>
   processMessage quietEnv gastown capFour (msg ''m-2'' ''POLECAT_DONE  '' []) = (capFour, [AckMessage ''m-2'']) \<and>
   nextInbox [msg ''m-2'' ''POLECAT_DONE  '' []]
      (snd (processMessage quietEnv gastown capFour (msg ''m-2'' ''POLECAT_DONE  '' []))) = []"
  by (simp add: dispatch_defs dispatch_scenario_defs)

text \<open>
  C5, amended.  The shutdown request the dispatcher knows has a subject that contains
  \<open>LIFECYCLE:\<close> and, in lower case, \<open>shutdown\<close>, and names the polecat in a
  \<open>Polecat: name\<close> line of its body.  For such a message the dispatcher goes on to
  verification and cleanup only if \<open>done:name\<close> is in \<open>spawned_issues\<close>; otherwise it
  sends the worker the nudge to run 'gt done' and does not acknowledge the message.
\<close>

theorem lifecycle_shutdown_gate:
  assumes "\<not> hasPrefix (Subject m1) ''POLECAT_DONE ''"
    and "containsStr (Subject m1) ''LIFECYCLE:''" and "containsStr (Subject m1) ''shutdown''"
    and "extractPolecatName (Body m1) = name" and "name \<noteq> []"
  shows "(\<not> (''done:'' @ name) \<in> set (SpawnedIssues w) \<longrightarrow>
            processMessage e m w m1 =
              (w, [SendMail (rigName m @ ''/'' @ name)
                     (''NUDGE: Cannot shutdown - Please run '' @ [CHR 0x27] @ ''gt done'' @ [CHR 0x27]
                        @ '' to signal completion'')]) \<and>
            \<not> acknowledged (snd (processMessage e m w m1)) (MsgID m1)) \<and>
         ((''done:'' @ name) \<in> set (SpawnedIssues w) \<longrightarrow>
            processMessage e m w m1 = (w, verifyCleanupAck e m name (MsgID m1))) \<and>
         ((\<exists>x \<in> set (snd (processMessage e m w m1)). destructive x) \<longrightarrow>
            (''done:'' @ name) \<in> set (SpawnedIssues w))"
  using assms by (auto simp: processMessage_def hasSentDone_def sendNudge_def acknowledged_def)

text \<open>
  C5 as stated fails on the subject \<open>LIFECYCLE:Shutdown Toast\<close>: it does not contain
  \<open>shutdown\<close> in lower case, so the message is skipped, with or without the done tag:
  no nudge, no cleanup, no acknowledgement.
\<close>

theorem lifecycle_shutdown_subject_ignored:
  "\<not> containsStr ''LIFECYCLE:Shutdown Toast'' ''shutdown'' \<and>
   processMessage quietEnv gastown capFour (msg ''m-4'' ''LIFECYCLE:Shutdown Toast'' ''Polecat: Toast'')
     = (capFour, []) \<and>
   processMessage quietEnv gastown toastDone (msg ''m-4'' ''LIFECYCLE:Shutdown Toast'' ''Polecat: Toast'')
     = (toastDone, [])"
  by (simp add: dispatch_defs dispatch_scenario_defs)

theorem lifecycle_shutdown_gate_witness:
  "\<not> hasPrefix ''LIFECYCLE: Toast requesting shutdown'' ''POLECAT_DONE '' \<and>
   containsStr ''LIFECYCLE: Toast requesting shutdown'' ''LIFECYCLE:'' \<and>
   containsStr ''LIFECYCLE: Toast requesting shutdown'' ''shutdown'' \<and>
   extractPolecatName ''Polecat: Toast'' = ''Toast'' \<and>
   ''done:Toast'' \<notin> set (SpawnedIssues capFour) \<and>
   processMessage quietEnv gastown capFour
       (msg ''m-5'' ''LIFECYCLE: Toast requesting shutdown'' ''Polecat: Toast'') =
     (capFour, [SendMail ''gastown/Toast''
        (''NUDGE: Cannot shutdown - Please run '' @ [CHR 0x27] @ ''gt done'' @ [CHR 0x27]
           @ '' to signal completion'')]) \<and>
   ''done:Toast'' \<in> set (SpawnedIssues toastDone) \<and>
   processMessage quietEnv gastown toastDone
       (msg ''m-5'' ''LIFECYCLE: Toast requesting shutdown'' ''Polecat: Toast'') =
     (toastDone, [StopSession ''Toast'', RemoveWorktree ''Toast'', DeleteBranch ''polecat/Toast'',
                  AckMessage ''m-5''])"
proof -
  let ?m = "msg ''m-5'' ''LIFECYCLE: Toast requesting shutdown'' ''Polecat: Toast''"
  have h: "\<not> hasPrefix (Subject ?m) ''POLECAT_DONE ''"
    "containsStr (Subject ?m) ''LIFECYCLE:''" "containsStr (Subject ?m) ''shutdown''"
    "extractPolecatName (Body ?m) = ''Toast''" "''Toast'' \<noteq> []"
    by (simp_all add: msg_def hasPrefix_def reSpace_def)
  have v: "verifyCleanupAck quietEnv gastown ''Toast'' (MsgID ?m) =
      [StopSession ''Toast'', RemoveWorktree ''Toast'', DeleteBranch ''polecat/Toast'', AckMessage ''m-5'']"
    by (simp add: dispatch_defs dispatch_scenario_defs)
  have t: "''done:Toast'' \<notin> set (SpawnedIssues capFour)" "''done:Toast'' \<in> set (SpawnedIssues toastDone)"
    "rigName gastown = ''gastown''"
    by (simp_all add: dispatch_scenario_defs)
  have f: "Subject ?m = ''LIFECYCLE: Toast requesting shutdown''" "Body ?m = ''Polecat: Toast''"
    by (simp_all add: msg_def)
  show ?thesis
    using lifecycle_shutdown_gate [OF h, of capFour quietEnv gastown]
      lifecycle_shutdown_gate [OF h, of toastDone quietEnv gastown] h v t
    by (simp add: f hasPrefix_def)
qed


subsection \<open>Stuck workers\<close>

lemma countEntries_append:
  "countEntries key (xs @ [key]) = countEntries key xs + 1"
  by (induction xs) auto

lemma wrap64_small: "wrap64 1 = 1" "wrap64 2 = 2"
  by (simp_all add: wrap64_def)

text \<open>
  When the count that \<open>getNudgeCount\<close> reads is the one \<open>recordNudge\<close> writes (the
  worker has an entry in the handoff record, or there is no handoff record), a stuck
  worker gets one transition: nudge and count 1, escalation and count 2, or nothing.
\<close>

lemma handleStuckPolecat_tracked:
  assumes "handoffState m = None \<or> (\<exists>h ws. handoffState m = Some h \<and> WorkerStates h name = Some ws)"
    and "handleStuckPolecat e m w name = (m', w', fx)"
    and "persist = (if handoffState m = None then [] else [UpdateHandoffBead])"
  shows "(getNudgeCount m w name = 0 \<longrightarrow>
            fx = SendMail (rigName m @ ''/'' @ name)
                   ''NUDGE: Cannot shutdown - No activity detected. Are you still working?'' # persist \<and>
            getNudgeCount m' w' name = 1) \<and>
         (getNudgeCount m w name = 1 \<longrightarrow>
            fx = SendMail ''mayor/'' (''ESCALATION: Polecat '' @ name @ '' stuck'') # persist \<and>
            getNudgeCount m' w' name = 2) \<and>
         (getNudgeCount m w name \<noteq> 0 \<and> getNudgeCount m w name \<noteq> 1 \<longrightarrow>
            m' = m \<and> w' = w \<and> fx = [])"
  using assms
  by (auto simp: handleStuckPolecat_def getNudgeCount_def recordNudge_def lookupWorker_def Let_def
      sendNudge_def escalateToMayor_def countEntries_append wrap64_small split: option.splits)

text \<open>
  C2 at the input where it fails.  The handoff record has no entry for Rictus and the
  legacy log holds one nudge, so the count read is 1 and the worker is escalated; the
  nudge is recorded in a fresh handoff entry, which then reads 1, not 2, and the next
  stuck tick escalates a second time.
\<close>

theorem handleStuckPolecat_legacy_count:
  "getNudgeCount gastown legacyNudged ''Rictus'' = 1 \<and>
   (case handleStuckPolecat quietEnv gastown legacyNudged ''Rictus'' of
      (m', w', fx) \<Rightarrow>
        fx = [SendMail ''mayor/'' ''ESCALATION: Polecat Rictus stuck'', UpdateHandoffBead] \<and>
        SpawnedIssues w' = [''nudge:Rictus'', ''nudge:Rictus''] \<and>
        getNudgeCount m' w' ''Rictus'' = 1 \<and>
        (case handleStuckPolecat quietEnv m' w' ''Rictus'' of
           (m'', w'', fx') \<Rightarrow>
             fx' = [SendMail ''mayor/'' ''ESCALATION: Polecat Rictus stuck'', UpdateHandoffBead] \<and>
             getNudgeCount m'' w'' ''Rictus'' = 2))"
  by (simp add: handleStuckPolecat_def getNudgeCount_def recordNudge_def lookupWorker_def Let_def
      escalateToMayor_def gastown_def legacyNudged_def capFour_def quietEnv_def zeroWorkerState_def
      wrap64_def)

subsection \<open>Handoff record\<close>

lemma neutral_Nil: "neutral []"
  by (simp add: neutral_def)

lemma neutral_append: "neutral x \<Longrightarrow> neutral y \<Longrightarrow> neutral (x @ y)"
  by (simp add: neutral_def add.assoc)

lemma neutral_plain_char: "plain c \<Longrightarrow> neutral [c]"
  by (simp add: neutral_def plain_def)

lemma neutral_plain: "\<forall>c \<in> set x. plain c \<Longrightarrow> neutral x"
proof (induction x)
  case Nil
  show ?case by (rule neutral_Nil)
next
  case (Cons c x)
  then have "neutral [c]" "neutral x" by (simp_all add: neutral_plain_char)
  then have "neutral ([c] @ x)" by (rule neutral_append)
  then show ?case by simp
qed

lemma braceLoop_stringBody:
  "stringBody body \<Longrightarrow>
   braceLoop depth True False i (body @ CHR 0x22 # rest) =
     braceLoop depth False False (i + length body + 1) rest"
  by (induction body arbitrary: i rule: stringBody.induct) (auto split: if_splits)

lemma neutral_quoted: "stringBody body \<Longrightarrow> neutral (quoted body)"
  by (simp add: neutral_def quoted_def braceLoop_stringBody)

lemma neutral_braces: "neutral x \<Longrightarrow> neutral (''{'' @ x @ ''}'')"
  by (simp add: neutral_def)

lemma neutral_newline: "neutral (newline d)"
  by (rule neutral_plain) (simp add: newline_def plain_def)

lemma digit_plain:
  assumes "(n::nat) < 10"
  shows "plain (char_of (48 + n))"
proof -
  have code: "of_char (char_of (48 + n)) = 48 + n"
    using assms by (simp add: of_char_of)
  have ne: "char_of (48 + n) \<noteq> c" if "(of_char c :: nat) < 48 \<or> 57 < (of_char c :: nat)" for c
  proof
    assume "char_of (48 + n) = c"
    with code have "(of_char c :: nat) = 48 + n" by simp
    with that assms show False by simp
  qed
  show ?thesis
    unfolding plain_def by (intro conjI ne) simp_all
qed

lemma showNat_plain: "\<forall>c \<in> set (showNat n). plain c"
proof (induction n rule: showNat.induct)
  case (1 n)
  show ?case
  proof (cases "n < 10")
    case True
    then have "showNat n = [char_of (48 + n)]" by (subst showNat.simps) simp
    with True show ?thesis by (simp add: digit_plain)
  next
    case False
    then have eq: "showNat n = showNat (n div 10) @ [char_of (48 + n mod 10)]"
      by (subst showNat.simps) simp
    have "n mod 10 < 10" by simp
    then have "plain (char_of (48 + n mod 10))" by (rule digit_plain)
    moreover from False 1 have "\<forall>c \<in> set (showNat (n div 10)). plain c" by simp
    ultimately show ?thesis unfolding eq by simp
  qed
qed

lemma neutral_showInt: "neutral (showInt n)"
proof (rule neutral_plain)
  have "plain (CHR ''-'')" by (simp add: plain_def)
  then show "\<forall>c \<in> set (showInt n). plain c"
    using showNat_plain by (simp add: showInt_def)
qed

lemma neutral_render:
  "wellFormed v \<Longrightarrow> neutral (render d v)"
  "wellFormedItems vs \<Longrightarrow> neutral (renderItems d1 vs)"
  "wellFormedMembers kvs \<Longrightarrow> neutral (renderMembers d2 kvs)"
proof (induction d v and d1 vs and d2 kvs rule: render_renderItems_renderMembers.induct)
  case (1 d)
  show ?case by (rule neutral_plain) (simp add: plain_def)
next
  case (2 d b)
  show ?case by (rule neutral_plain) (simp add: plain_def)
next
  case (3 d n)
  show ?case by (simp add: neutral_showInt)
next
  case (4 d body)
  then show ?case by (simp add: neutral_quoted)
next
  case (5 d)
  show ?case by (rule neutral_plain) (simp add: plain_def)
next
  case (6 d v vs)
  have b: "neutral ''[''" "neutral '']''" by (rule neutral_plain, simp add: plain_def)+
  from 6 have "neutral (renderItems (d + 1) (v # vs))" by simp
  with b have "neutral (''['' @ newline (d + 1) @ renderItems (d + 1) (v # vs) @ newline d @ '']'')"
    by (intro neutral_append neutral_newline)
  then show ?case by (simp del: renderItems.simps)
next
  case (7 d)
  have "neutral (''{'' @ [] @ ''}'')" by (rule neutral_braces) (rule neutral_Nil)
  then show ?case by simp
next
  case (8 d kv kvs)
  then have "neutral (renderMembers (d + 1) (kv # kvs))" by simp
  then have "neutral (newline (d + 1) @ renderMembers (d + 1) (kv # kvs) @ newline d)"
    by (intro neutral_append neutral_newline)
  then have "neutral (''{'' @ (newline (d + 1) @ renderMembers (d + 1) (kv # kvs) @ newline d) @ ''}'')"
    by (rule neutral_braces)
  then show ?case by (simp del: renderMembers.simps)
next
  case (9 d)
  show ?case by (simp add: neutral_Nil)
next
  case (10 d v)
  then show ?case by simp
next
  case (11 d v w vs)
  have c: "neutral '',''" by (rule neutral_plain) (simp add: plain_def)
  from 11 have "neutral (render d v)" "neutral (renderItems d (w # vs))" by simp_all
  with c have "neutral (render d v @ '','' @ newline d @ renderItems d (w # vs))"
    by (intro neutral_append neutral_newline)
  then show ?case by simp
next
  case (12 d)
  show ?case by (simp add: neutral_Nil)
next
  case (13 d k v)
  have c: "neutral '': ''" by (rule neutral_plain) (simp add: plain_def)
  from 13 have "neutral (quoted k)" "neutral (render d v)" by (simp_all add: neutral_quoted)
  with c have "neutral (quoted k @ '': '' @ render d v)"
    by (intro neutral_append)
  then show ?case by simp
next
  case (14 d k v kv kvs)
  have c: "neutral '': ''" "neutral '',''" by (rule neutral_plain, simp add: plain_def)+
  from 14 have "neutral (quoted k)" "neutral (render d v)" "neutral (renderMembers d (kv # kvs))"
    by (simp_all add: neutral_quoted)
  with c have "neutral (quoted k @ '': '' @ render d v @ '','' @ newline d @ renderMembers d (kv # kvs))"
    by (intro neutral_append neutral_newline)
  then show ?case by simp
qed

lemma findMatchingBrace_render:
  assumes "wellFormedMembers kvs"
  shows "findMatchingBrace (render 0 (JObject kvs) @ rest) = int (length (render 0 (JObject kvs))) - 1"
proof (cases kvs)
  case Nil
  then show ?thesis by (simp add: findMatchingBrace_def)
next
  case (Cons kv kvs')
  let ?mid = "newline 1 @ renderMembers 1 kvs @ newline 0"
  have "neutral (renderMembers 1 kvs)" using assms by (rule neutral_render)
  then have "neutral ?mid" by (intro neutral_append neutral_newline)
  then have skip: "braceLoop 1 False False 1 (?mid @ ''}'' @ rest)
      = braceLoop 1 False False (1 + length ?mid) (''}'' @ rest)"
    unfolding neutral_def by blast
  have doc: "render 0 (JObject kvs) = ''{'' @ ?mid @ ''}''"
    using Cons by simp
  have "findMatchingBrace (render 0 (JObject kvs) @ rest) = braceLoop 1 False False 1 (?mid @ ''}'' @ rest)"
    unfolding doc findMatchingBrace_def by simp
  also have "\<dots> = int (1 + length ?mid)"
    unfolding skip by simp
  also have "\<dots> = int (length (render 0 (JObject kvs))) - 1"
    unfolding doc by simp
  finally show ?thesis .
qed

lemma indexFrom_first: "b \<notin> set x \<Longrightarrow> indexFrom i b (x @ b # rest) = int (i + length x)"
  by (induction x arbitrary: i) auto

lemma render_object_head: "\<exists>t. render 0 (JObject kvs) = CHR ''{'' # t"
  by (cases kvs) auto

lemma header_no_brace:
  "CHR ''{'' \<notin> set (rigName m) \<Longrightarrow>
   CHR ''{'' \<notin> set (''Witness handoff state for '' @ rigName m @ [CHR ''.'', CHR 0x0A, CHR 0x0A]
       @ [CHR 0x60, CHR 0x60, CHR 0x60] @ ''json'' @ [CHR 0x0A])"
  by simp

text \<open>
  C9, amended.  For a rig whose name contains no opening brace and a state that
  \<open>json.MarshalIndent\<close> serialised as a JSON object, the parse step of
  \<open>loadHandoffState\<close> hands to \<open>json.Unmarshal\<close> exactly the document that
  \<open>saveHandoffState\<close> embedded in the description: braces and quotes inside its strings
  do not mislead the matcher.  So the state it returns is the one \<open>json.Unmarshal\<close>
  decodes from that document, and its \<open>worker_states\<close> equal the original ones whenever
  the library's decoding of its own encoding does.
\<close>

theorem handoff_roundtrip:
  assumes "CHR ''{'' \<notin> set (rigName m)"
    and "stateJSON = render 0 (JObject members)" and "wellFormedMembers members"
  shows "parseHandoffDescription unmarshal (handoffDescription m stateJSON) =
           (case unmarshal stateJSON emptyHandoffState of
              None \<Rightarrow> emptyHandoffState | Some decoded \<Rightarrow> decoded) \<and>
         (unmarshal stateJSON emptyHandoffState = Some decoded \<and>
          WorkerStates decoded = WorkerStates original \<longrightarrow>
            WorkerStates (parseHandoffDescription unmarshal (handoffDescription m stateJSON))
              = WorkerStates original)"
proof -
  define header where "header = ''Witness handoff state for '' @ rigName m @ [CHR ''.'', CHR 0x0A, CHR 0x0A]
       @ [CHR 0x60, CHR 0x60, CHR 0x60] @ ''json'' @ [CHR 0x0A]"
  define fence where "fence = [CHR 0x0A, CHR 0x60, CHR 0x60, CHR 0x60]"
  have nb: "CHR ''{'' \<notin> set header"
    unfolding header_def using assms(1) by (rule header_no_brace)
  obtain t where t: "stateJSON = CHR ''{'' # t"
    using render_object_head [of members] assms(2) by auto
  have desc: "handoffDescription m stateJSON = header @ stateJSON @ fence"
    by (simp add: handoffDescription_def header_def fence_def)
  have idx: "indexByte (handoffDescription m stateJSON) (CHR ''{'') = int (length header)"
  proof -
    have "indexFrom 0 (CHR ''{'') (header @ CHR ''{'' # (t @ fence)) = int (0 + length header)"
      using nb by (rule indexFrom_first)
    then show ?thesis unfolding indexByte_def desc unfolding t by simp
  qed
  have part: "drop (nat (int (length header))) (handoffDescription m stateJSON) = stateJSON @ fence"
    unfolding desc by simp
  have endIdx: "findMatchingBrace (stateJSON @ fence) = int (length stateJSON) - 1"
    unfolding assms(2) using assms(3) by (rule findMatchingBrace_render)
  have len: "2 \<le> length stateJSON"
    unfolding assms(2) by (cases members) auto
  have pos: "findMatchingBrace (stateJSON @ fence) > 0"
    using endIdx len by simp
  have slice: "take (nat (findMatchingBrace (stateJSON @ fence) + 1)) (stateJSON @ fence) = stateJSON"
    using endIdx len by simp
  have main: "parseHandoffDescription unmarshal (handoffDescription m stateJSON) =
           (case unmarshal stateJSON emptyHandoffState of
              None \<Rightarrow> emptyHandoffState | Some decoded \<Rightarrow> decoded)"
    unfolding parseHandoffDescription_def Let_def idx part
    using pos slice by simp
  then show ?thesis by simp
qed

text \<open>A worker whose arm id contains a brace, in rig gastown.\<close>

theorem handoff_roundtrip_witness:
  "CHR ''{'' \<notin> set (rigName gastown) \<and> wellFormed toastDocument \<and>
   decodeOnly (render 0 toastDocument) toastNudged (render 0 toastDocument) emptyHandoffState
     = Some toastNudged \<and>
   parseHandoffDescription (decodeOnly (render 0 toastDocument) toastNudged)
       (handoffDescription gastown (render 0 toastDocument)) = toastNudged \<and>
   WorkerStates (parseHandoffDescription (decodeOnly (render 0 toastDocument) toastNudged)
       (handoffDescription gastown (render 0 toastDocument))) = WorkerStates toastNudged"
proof -
  have r: "CHR ''{'' \<notin> set (rigName gastown)"
    by (simp add: gastown_def)
  have d: "render 0 toastDocument = render 0 (JObject
     [(''worker_states'',
               JObject [(''Toast'', JObject [(''nudge_count'', JNumber 1),
                                            (''arm_id'', JString ''gt-{7'')])]),
              (''patrol_instance_id'', JString ''gt-patrol'')])"
    by (simp only: toastDocument_def)
  have w: "wellFormedMembers
     [(''worker_states'',
               JObject [(''Toast'', JObject [(''nudge_count'', JNumber 1),
                                            (''arm_id'', JString ''gt-{7'')])]),
              (''patrol_instance_id'', JString ''gt-patrol'')]"
    by simp
  have w': "wellFormed toastDocument"
    by (simp add: toastDocument_def)
  have u: "decodeOnly (render 0 toastDocument) toastNudged (render 0 toastDocument) emptyHandoffState
     = Some toastNudged"
    by (simp add: decodeOnly_def)
  show ?thesis
    using handoff_roundtrip [OF r d w, of "decodeOnly (render 0 toastDocument) toastNudged" toastNudged toastNudged]
      r w' u
    by simp
qed

text \<open>
  C9 as stated fails for a rig whose name contains an opening brace: the first brace of
  the description is then in the heading, the matcher never returns to depth 0, and the
  parse step returns the empty state although the document would decode.
\<close>

theorem handoff_roundtrip_braced_rig:
  "wellFormed toastDocument \<and>
   decodeOnly (render 0 toastDocument) toastNudged (render 0 toastDocument) emptyHandoffState
     = Some toastNudged \<and>
   WorkerStates toastNudged ''Toast'' \<noteq> None \<and>
   indexByte (handoffDescription bracedRig (render 0 toastDocument)) (CHR ''{'') = 27 \<and>
   findMatchingBrace (drop 27 (handoffDescription bracedRig (render 0 toastDocument))) = - 1 \<and>
   parseHandoffDescription (decodeOnly (render 0 toastDocument) toastNudged)
       (handoffDescription bracedRig (render 0 toastDocument)) = emptyHandoffState \<and>
   WorkerStates (parseHandoffDescription (decodeOnly (render 0 toastDocument) toastNudged)
       (handoffDescription bracedRig (render 0 toastDocument))) ''Toast'' = None"
proof -
  have w: "wellFormed toastDocument"
    by (simp add: toastDocument_def)
  have u: "decodeOnly (render 0 toastDocument) toastNudged (render 0 toastDocument) emptyHandoffState
     = Some toastNudged"
    by (simp add: decodeOnly_def)
  have s: "WorkerStates toastNudged ''Toast'' \<noteq> None"
    by (simp add: toastNudged_def)
  have i: "indexByte (handoffDescription bracedRig (render 0 toastDocument)) (CHR ''{'') = 27"
    by code_simp
  have b: "findMatchingBrace (drop 27 (handoffDescription bracedRig (render 0 toastDocument))) = - 1"
    by code_simp
  have p: "parseHandoffDescription (decodeOnly (render 0 toastDocument) toastNudged)
       (handoffDescription bracedRig (render 0 toastDocument)) = emptyHandoffState"
    unfolding parseHandoffDescription_def Let_def i using b by simp
  have e: "WorkerStates emptyHandoffState ''Toast'' = None"
    by (simp add: emptyHandoffState_def)
  from w u s i b p e show ?thesis by simp
qed

end
